theory Spec2Isabelle
  imports Main "HOL-Library.Log_Nat"
begin

section \<open>Kirby Gate enforcement tracker: the calculation engine and its ledger\<close>

text \<open>
  A shallow embedding of \<^verbatim>\<open>kirbygate.py\<close>: the calculation engine
  (\<^verbatim>\<open>calc_pct\<close> \<dots> \<^verbatim>\<open>calc_settlement\<close>), the deadline arithmetic, and the
  menu operations that write the \<^verbatim>\<open>parcels\<close> and \<^verbatim>\<open>enforcement_log\<close> tables.
\<close>

subsection \<open>Exceptions\<close>

text \<open>The Python exceptions the modelled code can raise.\<close>

datatype py_error = ValueError | ZeroDivisionError | OverflowError | IntegrityError

subsection \<open>Python floats\<close>

text \<open>
  A Python \<^verbatim>\<open>float\<close> is an IEEE 754 binary64 number and every arithmetic operation
  returns the exact result rounded to the nearest representable number, ties to the even
  significand. A finite float is modelled by the rational number it denotes (both zeros by 0);
  \<open>pyfloat\<close> adds the two infinities and NaN. A Python \<^verbatim>\<open>int\<close> is an \<open>int\<close>.

  \<open>fl\<close> is the rounding to 53 significant bits with no bound on the exponent, and
  \<open>binary64\<close> is the rounding of the format itself: in steps of \<open>2\<^sup>-\<^sup>1\<^sup>0\<^sup>7\<^sup>4\<close> below
  \<open>2\<^sup>-\<^sup>1\<^sup>0\<^sup>2\<^sup>2\<close> (the subnormal numbers) and to an infinity when the rounded value reaches
  \<open>2\<^sup>1\<^sup>0\<^sup>2\<^sup>4\<close>. The two agree wherever the exact result is of normal size
  (lemma \<open>binary64_normal\<close>). The proration of an area, whose values are of normal size for
  every area an SQLite INTEGER holds, is written with \<open>fl\<close>; what reads a float typed at the
  keyboard or stored in a REAL column is written with \<open>pyfloat\<close>.
\<close>

definition ilog2 :: "rat \<Rightarrow> int" where
  \<comment> \<open>\<open>\<lfloor>log\<^sub>2 x\<rfloor>\<close> for \<open>0 < x\<close>, computed on integers\<close>
  "ilog2 x = (if 1 \<le> x then bitlen \<lfloor>x\<rfloor> - 1 else - bitlen (\<lceil>1 / x\<rceil> - 1))"

definition round_half_even :: "rat \<Rightarrow> int" where
  "round_half_even y =
     (let f = \<lfloor>y\<rfloor>; r = y - of_int f
      in if r < 1 / 2 then f
         else if 1 / 2 < r then f + 1
         else if even f then f else f + 1)"

definition fl :: "rat \<Rightarrow> rat" where
  "fl x =
     (if x = 0 then 0
      else let e = ilog2 \<bar>x\<bar> - 52
           in sgn x * of_int (round_half_even (\<bar>x\<bar> / 2 powi e)) * 2 powi e)"

definition fadd :: "rat \<Rightarrow> rat \<Rightarrow> rat" where
  "fadd x y = fl (x + y)"

definition fmul :: "rat \<Rightarrow> rat \<Rightarrow> rat" where
  "fmul x y = fl (x * y)"

definition float_of_int :: "int \<Rightarrow> rat" where
  \<comment> \<open>the conversion of an \<^verbatim>\<open>int\<close> operand in mixed arithmetic\<close>
  "float_of_int i = fl (of_int i)"

definition int_truediv :: "int \<Rightarrow> int \<Rightarrow> py_error + rat" where
  \<comment> \<open>\<^verbatim>\<open>a / b\<close> on two \<^verbatim>\<open>int\<close>s whose quotient is of normal size: the exact quotient,
      correctly rounded\<close>
  "int_truediv a b = (if b = 0 then Inl ZeroDivisionError else Inr (fl (of_int a / of_int b)))"

datatype pyfloat = Finite rat | PosInf | NegInf | NaN

definition binary64 :: "rat \<Rightarrow> pyfloat" where
  "binary64 x =
     (if x = 0 then Finite 0
      else let e = max (ilog2 \<bar>x\<bar> - 52) (- 1074);
               y = of_int (round_half_even (\<bar>x\<bar> / 2 powi e)) * 2 powi e
           in if 2 ^ 1024 \<le> y then (if 0 < x then PosInf else NegInf)
              else Finite (sgn x * y))"

fun float_sign :: "pyfloat \<Rightarrow> int" where
  \<comment> \<open>1, 0 or -1; 0 for zero and for NaN\<close>
  "float_sign (Finite x) = (if 0 < x then 1 else if x < 0 then - 1 else 0)"
| "float_sign PosInf = 1"
| "float_sign NegInf = - 1"
| "float_sign NaN = 0"

definition signed_inf :: "int \<Rightarrow> pyfloat" where
  \<comment> \<open>the infinity of a sign; NaN for the sign 0 (\<^verbatim>\<open>inf * 0\<close>)\<close>
  "signed_inf s = (if 0 < s then PosInf else if s < 0 then NegInf else NaN)"

fun float_neg :: "pyfloat \<Rightarrow> pyfloat" where
  "float_neg (Finite x) = Finite (- x)"
| "float_neg PosInf = NegInf"
| "float_neg NegInf = PosInf"
| "float_neg NaN = NaN"

definition float_add :: "pyfloat \<Rightarrow> pyfloat \<Rightarrow> pyfloat" where
  \<comment> \<open>\<^verbatim>\<open>x + y\<close> on floats\<close>
  "float_add a b =
     (case (a, b) of
        (Finite x, Finite y) \<Rightarrow> binary64 (x + y)
      | (Finite x, _) \<Rightarrow> b
      | (_, Finite y) \<Rightarrow> a
      | _ \<Rightarrow> if a = b then a else NaN)"

definition float_sub :: "pyfloat \<Rightarrow> pyfloat \<Rightarrow> pyfloat" where
  \<comment> \<open>\<^verbatim>\<open>x - y\<close> on floats\<close>
  "float_sub a b = float_add a (float_neg b)"

definition float_mul :: "pyfloat \<Rightarrow> pyfloat \<Rightarrow> pyfloat" where
  \<comment> \<open>\<^verbatim>\<open>x * y\<close> on floats\<close>
  "float_mul a b =
     (case (a, b) of
        (Finite x, Finite y) \<Rightarrow> binary64 (x * y)
      | _ \<Rightarrow> if a = NaN \<or> b = NaN then NaN else signed_inf (float_sign a * float_sign b))"

definition float_truediv :: "pyfloat \<Rightarrow> pyfloat \<Rightarrow> py_error + pyfloat" where
  \<comment> \<open>\<^verbatim>\<open>x / y\<close> on floats: a zero divisor raises, whatever the dividend\<close>
  "float_truediv a b =
     (if b = Finite 0 then Inl ZeroDivisionError
      else Inr (case (a, b) of
                  (Finite x, Finite y) \<Rightarrow> binary64 (x / y)
                | (Finite x, NaN) \<Rightarrow> NaN
                | (Finite x, _) \<Rightarrow> Finite 0
                | (NaN, _) \<Rightarrow> NaN
                | (_, Finite y) \<Rightarrow> signed_inf (float_sign a * float_sign b)
                | _ \<Rightarrow> NaN))"

definition float_of_pyint :: "int \<Rightarrow> py_error + pyfloat" where
  \<comment> \<open>an \<^verbatim>\<open>int\<close> operand of float arithmetic: rounded, \<^verbatim>\<open>OverflowError\<close> when too large\<close>
  "float_of_pyint i =
     (case binary64 (of_int i) of Finite y \<Rightarrow> Inr (Finite y) | _ \<Rightarrow> Inl OverflowError)"

definition float_div_int :: "pyfloat \<Rightarrow> int \<Rightarrow> py_error + pyfloat" where
  \<comment> \<open>\<^verbatim>\<open>x / i\<close>, a float by an \<^verbatim>\<open>int\<close>: the \<^verbatim>\<open>int\<close> is converted, then the floats divided\<close>
  "float_div_int a i =
     (case float_of_pyint i of Inl e \<Rightarrow> Inl e | Inr b \<Rightarrow> float_truediv a b)"

definition pyint_truediv :: "int \<Rightarrow> int \<Rightarrow> py_error + pyfloat" where
  \<comment> \<open>\<^verbatim>\<open>a / b\<close> on two \<^verbatim>\<open>int\<close>s: the exact quotient, correctly rounded, \<^verbatim>\<open>OverflowError\<close>
      when it is too large for a float\<close>
  "pyint_truediv a b =
     (if b = 0 then Inl ZeroDivisionError
      else case binary64 (of_int a / of_int b) of
             Finite y \<Rightarrow> Inr (Finite y) | _ \<Rightarrow> Inl OverflowError)"

subsection \<open>Constants\<close>

definition TOTAL_CAMPUS_SQFT :: int where
  "TOTAL_CAMPUS_SQFT = 672718"

definition HISTORIC_WEEKLY_RATE :: rat where
  "HISTORIC_WEEKLY_RATE = fl (606952 / 100)"

definition CURRENT_WEEKLY_RATE :: rat where
  "CURRENT_WEEKLY_RATE = fl 9000"

definition ARREARS_WEEKS :: int where
  "ARREARS_WEEKS = 156"

definition WEEKS_PER_MONTH :: rat where
  \<comment> \<open>the literal \<^verbatim>\<open>4.333\<close> of \<^verbatim>\<open>calc_forward_monthly\<close> and \<^verbatim>\<open>get_forward_monthly\<close>\<close>
  "WEEKS_PER_MONTH = fl (4333 / 1000)"

definition LITIGATION_FACTOR :: rat where
  \<comment> \<open>the literal \<^verbatim>\<open>1.40\<close> of \<^verbatim>\<open>calc_settlement\<close>\<close>
  "LITIGATION_FACTOR = fl (140 / 100)"

subsection \<open>Calculation engine\<close>

definition calc_pct :: "int \<Rightarrow> rat" where
  "calc_pct sqft = fl (of_int sqft / of_int TOTAL_CAMPUS_SQFT)"

definition calc_historic_weekly :: "int \<Rightarrow> rat" where
  "calc_historic_weekly sqft = fmul HISTORIC_WEEKLY_RATE (calc_pct sqft)"

definition calc_current_weekly :: "int \<Rightarrow> rat" where
  "calc_current_weekly sqft = fmul CURRENT_WEEKLY_RATE (calc_pct sqft)"

definition calc_arrears_36mo :: "int \<Rightarrow> rat" where
  "calc_arrears_36mo sqft = fmul (calc_historic_weekly sqft) (float_of_int ARREARS_WEEKS)"

definition calc_forward_monthly :: "int \<Rightarrow> rat" where
  "calc_forward_monthly sqft = fmul (calc_current_weekly sqft) WEEKS_PER_MONTH"

subsection \<open>Rows of the \<^verbatim>\<open>parcels\<close> table\<close>

text \<open>
  One row of \<^verbatim>\<open>parcels\<close>, column by column as the schema declares them; the key
  \<^verbatim>\<open>id\<close> is the key of the table below. Every column but \<^verbatim>\<open>address\<close> may be NULL.
  The REAL columns \<^verbatim>\<open>past_due_balance\<close> and \<^verbatim>\<open>weekly_rate\<close> hold what the operator typed,
  any float; \<^verbatim>\<open>pct_campus\<close> only ever receives a quotient \<^verbatim>\<open>sqft / TOTAL_CAMPUS_SQFT\<close>.
\<close>

record parcel =
  address :: string
  business_name :: "string option"
  sqft :: "int option"
  pct_campus :: "rat option"
  status :: "string option"
  entity_owner :: "string option"
  corporate_target :: "string option"
  past_due_balance :: "pyfloat option"
  weekly_rate :: "pyfloat option"
  certified_mail_tracking :: "string option"
  date_packet_sent :: "string option"
  cure_deadline :: "string option"
  lien_filing_date :: "string option"
  attorney_referral_date :: "string option"
  enforcement_step :: "string option"
  next_action :: "string option"
  deadline :: "string option"
  notes_col :: "string option"  \<comment> \<open>column \<^verbatim>\<open>notes\<close>\<close>
  county_parcel_id :: "string option"
  mailing_address :: "string option"
  lender_name :: "string option"
  lender_address :: "string option"
  deed_of_trust_ref :: "string option"
  lender_contact :: "string option"
  loan_number :: "string option"
  title_company :: "string option"
  address_verified :: "int option"
  lender_verified :: "int option"

definition sqft_or_0 :: "parcel \<Rightarrow> int" where
  \<comment> \<open>\<^verbatim>\<open>row["sqft"] or 0\<close>\<close>
  "sqft_or_0 row = (case sqft row of None \<Rightarrow> 0 | Some a \<Rightarrow> a)"

definition get_arrears :: "parcel \<Rightarrow> pyfloat" where
  "get_arrears row =
     (if past_due_balance row \<noteq> None \<and> past_due_balance row \<noteq> Some (Finite 0)
      then the (past_due_balance row)
      else if status row \<in> {Some ''DELINQUENT'', Some ''DISPUTED'', Some ''RECON''}
      then Finite (calc_arrears_36mo (sqft_or_0 row))
      else Finite 0)"

definition get_weekly :: "parcel \<Rightarrow> pyfloat" where
  "get_weekly row =
     (if weekly_rate row \<noteq> None \<and> weekly_rate row \<noteq> Some (Finite 0)
      then the (weekly_rate row)
      else Finite (calc_current_weekly (sqft_or_0 row)))"

definition get_forward_monthly :: "parcel \<Rightarrow> pyfloat" where
  "get_forward_monthly row = float_mul (get_weekly row) (Finite WEEKS_PER_MONTH)"

subsection \<open>Settlement\<close>

text \<open>The dictionary \<^verbatim>\<open>calc_settlement\<close> returns, key by key.\<close>

record settlement =
  settled_amount :: pyfloat
  monthly_no_interest :: pyfloat
  total_with_interest :: pyfloat
  monthly_with_interest :: pyfloat
  savings_vs_full :: pyfloat
  savings_pct :: pyfloat
  savings_vs_litigation :: pyfloat

text \<open>
  \<open>principal_amt\<close> is the argument \<^verbatim>\<open>principal\<close>. \<^verbatim>\<open>settlement_calculator\<close> passes
  \<^verbatim>\<open>int(term_str)\<close> as \<^verbatim>\<open>term_months\<close> and floats for the other three (an \<^verbatim>\<open>int\<close> principal,
  the \<^verbatim>\<open>0\<close> that \<^verbatim>\<open>get_arrears\<close> may return, enters the arithmetic as its float). The
  \<^verbatim>\<open>int\<close>s \<^verbatim>\<open>1\<close> and \<^verbatim>\<open>0\<close> of the body are the floats 1 and 0. Every division and
  conversion is the partial operation, so an exception surfaces as \<open>Inl\<close>.
\<close>

definition calc_settlement ::
  "pyfloat \<Rightarrow> pyfloat \<Rightarrow> pyfloat \<Rightarrow> int \<Rightarrow> py_error + settlement" where
  "calc_settlement principal_amt discount_pct interest_rate term_months =
     (let settled = float_mul principal_amt (float_sub (Finite 1) discount_pct)
      in case (if term_months \<noteq> 0 then float_div_int settled term_months
               else Inr (Finite 0)) of
           Inl e \<Rightarrow> Inl e
         | Inr monthly_no_int \<Rightarrow>
        (case pyint_truediv term_months 12 of
           Inl e \<Rightarrow> Inl e
         | Inr years \<Rightarrow>
        (let total_with_int =
               float_mul settled (float_add (Finite 1) (float_mul interest_rate years))
         in case (if term_months \<noteq> 0 then float_div_int total_with_int term_months
                  else Inr (Finite 0)) of
              Inl e \<Rightarrow> Inl e
            | Inr monthly_with_int \<Rightarrow>
           (let litigation_est = float_mul principal_amt (Finite LITIGATION_FACTOR);
                savings_vs_full = float_sub principal_amt settled;
                savings_vs_lit = float_sub litigation_est total_with_int
            in Inr \<lparr>settled_amount = settled,
                    monthly_no_interest = monthly_no_int,
                    total_with_interest = total_with_int,
                    monthly_with_interest = monthly_with_int,
                    savings_vs_full = savings_vs_full,
                    savings_pct = discount_pct,
                    savings_vs_litigation = savings_vs_lit\<rparr>))))"

subsection \<open>A seeded row\<close>

text \<open>
  The tenth entry of \<^verbatim>\<open>SEED_PARCELS\<close> as \<^verbatim>\<open>get_db\<close> inserts it into a fresh database:
  the columns the \<^verbatim>\<open>INSERT\<close> names, the schema defaults for the two \<^verbatim>\<open>*_verified\<close>
  flags, NULL elsewhere.
\<close>

definition seed_row :: parcel where
  "seed_row =
     \<lparr>address = ''6480 Quince Rd'',
      business_name = Some ''Pointe at Kirby (MedHCP)'',
      sqft = Some 31061,
      pct_campus = Some (calc_pct 31061),
      status = Some ''DELINQUENT'',
      entity_owner = Some ''Grace Mgmt / MedHCP REIT'',
      corporate_target = Some ''MedHCP Corp - Dallas TX'',
      past_due_balance = None,
      weekly_rate = None,
      certified_mail_tracking = None,
      date_packet_sent = None,
      cure_deadline = None,
      lien_filing_date = None,
      attorney_referral_date = None,
      enforcement_step = Some ''Demand Sent'',
      next_action = Some ''Follow-up / Lien Warning'',
      deadline = Some ''2026-03-01'',
      notes_col = Some ''Large parcel, high-value target'',
      county_parcel_id = None,
      mailing_address = None,
      lender_name = None,
      lender_address = None,
      deed_of_trust_ref = None,
      lender_contact = None,
      loan_number = None,
      title_company = None,
      address_verified = Some 0,
      lender_verified = Some 0\<rparr>"

subsection \<open>Calendar dates\<close>

text \<open>
  \<^verbatim>\<open>datetime.strptime(s, "%Y-%m-%d")\<close>, \<^verbatim>\<open>+ timedelta(days=n)\<close> and
  \<^verbatim>\<open>.strftime("%Y-%m-%d")\<close> on the proleptic Gregorian calendar of Python's \<^verbatim>\<open>datetime\<close>
  (years 1 to 9999). The parsed value carries the time 00:00:00, which neither the addition
  of whole days nor the format reads, so a date is its year, month and day.
\<close>

record date =
  year :: int
  month :: int
  day :: int

definition is_leap :: "int \<Rightarrow> bool" where
  "is_leap y \<longleftrightarrow> y mod 4 = 0 \<and> (y mod 100 \<noteq> 0 \<or> y mod 400 = 0)"

definition days_in_month :: "int \<Rightarrow> int \<Rightarrow> int" where
  "days_in_month y m =
     (if m = 2 then (if is_leap y then 29 else 28)
      else if m = 4 \<or> m = 6 \<or> m = 9 \<or> m = 11 then 30
      else 31)"

definition days_before_year :: "int \<Rightarrow> int" where
  "days_before_year y = (y - 1) * 365 + (y - 1) div 4 - (y - 1) div 100 + (y - 1) div 400"

definition days_before_month :: "int \<Rightarrow> int \<Rightarrow> int" where
  "days_before_month y m = (\<Sum>k\<leftarrow>[1..m - 1]. days_in_month y k)"

definition toordinal :: "date \<Rightarrow> int" where
  \<comment> \<open>\<^verbatim>\<open>date.toordinal()\<close>: 1 for 0001-01-01\<close>
  "toordinal d = days_before_year (year d) + days_before_month (year d) (month d) + day d"





definition days_between :: "date \<Rightarrow> date \<Rightarrow> int" where
  \<comment> \<open>\<^verbatim>\<open>(a - b).days\<close>\<close>
  "days_between a b = toordinal a - toordinal b"

text \<open>
  Parsing follows the regular expression \<^verbatim>\<open>_strptime\<close> builds for the format: \<^verbatim>\<open>%Y\<close> is
  four digits, \<^verbatim>\<open>%m\<close> is \<^verbatim>\<open>1[0-2]|0[1-9]|[1-9]\<close>, \<^verbatim>\<open>%d\<close> is
  \<^verbatim>\<open>3[01]|[12]\d|0[1-9]|[1-9]| [1-9]\<close>, alternatives tried in this order; text left over
  after the day, a year 0 and a day past the end of the month are \<^verbatim>\<open>ValueError\<close>s.
  Strings are ASCII here (the expression's \<^verbatim>\<open>\d\<close> also admits other Unicode digits).
\<close>

definition is_digit :: "char \<Rightarrow> bool" where
  "is_digit c \<longleftrightarrow> c \<in> set ''0123456789''"

definition is_digit19 :: "char \<Rightarrow> bool" where
  "is_digit19 c \<longleftrightarrow> c \<in> set ''123456789''"

definition digit_val :: "char \<Rightarrow> int" where
  "digit_val c = int (of_char c) - 48"

fun parse_Y :: "string \<Rightarrow> (int \<times> string) option" where
  "parse_Y (a # b # c # d # rest) =
     (if is_digit a \<and> is_digit b \<and> is_digit c \<and> is_digit d
      then Some (1000 * digit_val a + 100 * digit_val b + 10 * digit_val c + digit_val d, rest)
      else None)"
| "parse_Y _ = None"

fun parse_m :: "string \<Rightarrow> (int \<times> string) option" where
  "parse_m (a # b # rest) =
     (if a = CHR ''1'' \<and> b \<in> set ''012'' then Some (10 + digit_val b, rest)
      else if a = CHR ''0'' \<and> is_digit19 b then Some (digit_val b, rest)
      else if is_digit19 a then Some (digit_val a, b # rest)
      else None)"
| "parse_m [a] = (if is_digit19 a then Some (digit_val a, []) else None)"
| "parse_m [] = None"

fun parse_d :: "string \<Rightarrow> (int \<times> string) option" where
  "parse_d (a # b # rest) =
     (if a = CHR ''3'' \<and> b \<in> set ''01'' then Some (30 + digit_val b, rest)
      else if a \<in> set ''12'' \<and> is_digit b then Some (10 * digit_val a + digit_val b, rest)
      else if a = CHR ''0'' \<and> is_digit19 b then Some (digit_val b, rest)
      else if is_digit19 a then Some (digit_val a, b # rest)
      else if a = CHR '' '' \<and> is_digit19 b then Some (digit_val b, rest)
      else None)"
| "parse_d [a] = (if is_digit19 a then Some (digit_val a, []) else None)"
| "parse_d [] = None"

fun expect_dash :: "string \<Rightarrow> string option" where
  "expect_dash (c # rest) = (if c = CHR ''-'' then Some rest else None)"
| "expect_dash [] = None"

definition strptime_ymd :: "string \<Rightarrow> py_error + date" where
  "strptime_ymd s =
     (case parse_Y s of None \<Rightarrow> Inl ValueError | Some (y, r1) \<Rightarrow>
      (case expect_dash r1 of None \<Rightarrow> Inl ValueError | Some r2 \<Rightarrow>
      (case parse_m r2 of None \<Rightarrow> Inl ValueError | Some (m, r3) \<Rightarrow>
      (case expect_dash r3 of None \<Rightarrow> Inl ValueError | Some r4 \<Rightarrow>
      (case parse_d r4 of None \<Rightarrow> Inl ValueError | Some (d, r5) \<Rightarrow>
         if r5 \<noteq> [] then Inl ValueError
         else if y < 1 \<or> days_in_month y m < d then Inl ValueError
         else Inr \<lparr>year = y, month = m, day = d\<rparr>)))))"

text \<open>
  Formatting: \<^verbatim>\<open>%m\<close> and \<^verbatim>\<open>%d\<close> are two digits; \<^verbatim>\<open>%Y\<close> is the year as the C library
  prints it, in decimal with no padding (glibc: \<^verbatim>\<open>999-01-31\<close> for the year 999), which from
  the year 1000 on is the four digits every platform prints.
\<close>

definition digit_char :: "int \<Rightarrow> char" where
  "digit_char n = char_of (48 + nat n)"





subsection \<open>Urgency of a deadline\<close>

text \<open>
  The branches of \<^verbatim>\<open>view_deadlines\<close> on \<^verbatim>\<open>days_left = (dl_date - today).days\<close>: the flags
  \<^verbatim>\<open>** OVERDUE **\<close>, \<^verbatim>\<open>** URGENT **\<close>, \<^verbatim>\<open>* SOON *\<close> and no flag.
\<close>

datatype urgency = Overdue | Urgent | Soon | Normal

definition urgency_of :: "int \<Rightarrow> urgency" where
  "urgency_of days =
     (if days < 0 then Overdue
      else if days \<le> 7 then Urgent
      else if days \<le> 14 then Soon
      else Normal)"

definition days_left :: "string \<Rightarrow> date \<Rightarrow> py_error + int" where
  \<comment> \<open>for a stored, non-empty deadline string and today's date; empty columns are skipped\<close>
  "days_left deadline_str today =
     (case strptime_ymd deadline_str of Inl e \<Rightarrow> Inl e
      | Inr dl_date \<Rightarrow> Inr (days_between dl_date today))"

subsection \<open>The database\<close>

text \<open>
  One row of \<^verbatim>\<open>enforcement_log\<close>. The key \<^verbatim>\<open>id\<close> is assigned by SQLite in insertion order
  and is the position in the list below; \<open>log_notes\<close> is the column \<^verbatim>\<open>notes\<close>.
\<close>

record log_entry =
  parcel_id :: "int option"
  timestamp :: string
  action :: "string option"
  sent_via :: "string option"
  response_due :: "string option"
  response_received :: "string option"
  next_step :: "string option"
  attorney :: "string option"
  cost :: "rat option"
  log_notes :: "string option"

text \<open>
  The two tables the operations write: \<^verbatim>\<open>parcels\<close> by primary key, \<^verbatim>\<open>enforcement_log\<close>
  in insertion order. A connection holds the database as its statements have left it
  (\<open>working\<close>) and as the last \<^verbatim>\<open>commit\<close> left it (\<open>committed\<close>): \<^verbatim>\<open>execute\<close> writes the
  first, \<^verbatim>\<open>commit\<close> copies it to the second.
\<close>

record db =
  parcels :: "int \<rightharpoonup> parcel"
  enforcement_log :: "log_entry list"

record connection =
  working :: db
  committed :: db

definition sqlite_int :: "int \<Rightarrow> bool" where
  \<comment> \<open>a Python \<^verbatim>\<open>int\<close> that binds to an SQLite INTEGER; others raise \<^verbatim>\<open>OverflowError\<close>\<close>
  "sqlite_int v \<longleftrightarrow> - (2 ^ 63) \<le> v \<and> v < 2 ^ 63"

definition select_parcel :: "connection \<Rightarrow> int \<Rightarrow> py_error + parcel option" where
  \<comment> \<open>\<^verbatim>\<open>conn.execute("SELECT * FROM parcels WHERE id = ?", (pid,)).fetchone()\<close>\<close>
  "select_parcel conn pid =
     (if \<not> sqlite_int pid then Inl OverflowError else Inr (parcels (working conn) pid))"

definition update_parcel_row :: "connection \<Rightarrow> int \<Rightarrow> (parcel \<Rightarrow> parcel) \<Rightarrow> py_error + connection" where
  \<comment> \<open>\<^verbatim>\<open>UPDATE parcels SET \<dots> WHERE id = ?\<close>: no row with that id, no change\<close>
  "update_parcel_row conn pid f =
     (if \<not> sqlite_int pid then Inl OverflowError
      else case parcels (working conn) pid of
             None \<Rightarrow> Inr conn
           | Some row \<Rightarrow>
               Inr (conn\<lparr>working := (working conn)\<lparr>parcels := (parcels (working conn))(pid \<mapsto> f row)\<rparr>\<rparr>))"

definition insert_log :: "connection \<Rightarrow> log_entry \<Rightarrow> py_error + connection" where
  \<comment> \<open>\<^verbatim>\<open>INSERT INTO enforcement_log\<close> under \<^verbatim>\<open>PRAGMA foreign_keys = ON\<close>\<close>
  "insert_log conn entry =
     (case parcel_id entry of
        None \<Rightarrow>
          Inr (conn\<lparr>working := (working conn)\<lparr>enforcement_log :=
                 enforcement_log (working conn) @ [entry]\<rparr>\<rparr>)
      | Some pid \<Rightarrow>
          if \<not> sqlite_int pid then Inl OverflowError
          else if parcels (working conn) pid = None then Inl IntegrityError
          else Inr (conn\<lparr>working := (working conn)\<lparr>enforcement_log :=
                 enforcement_log (working conn) @ [entry]\<rparr>\<rparr>))"

definition commit :: "connection \<Rightarrow> connection" where
  "commit conn = conn\<lparr>committed := working conn\<rparr>"

subsection \<open>Marking a packet as sent\<close>





subsection \<open>Editing a parcel\<close>

text \<open>
  The Python built-ins the two menu operations call on what the operator types are
  arguments of the model: \<^verbatim>\<open>int(s)\<close> and \<^verbatim>\<open>float(s)\<close>, with \<open>None\<close> for \<^verbatim>\<open>ValueError\<close>, and
  the text \<^verbatim>\<open>f"{x}"\<close> of a float. What is proved holds whatever strings they accept and
  whatever float they return: \<^verbatim>\<open>float\<close> also reads \<^verbatim>\<open>inf\<close> and \<^verbatim>\<open>nan\<close>.
\<close>

record builtins =
  int_of_str :: "string \<Rightarrow> int option"
  float_of_str :: "string \<Rightarrow> pyfloat option"
  str_of_float :: "pyfloat \<Rightarrow> string"

definition sqlite_real :: "pyfloat \<Rightarrow> pyfloat option" where
  \<comment> \<open>a Python \<^verbatim>\<open>float\<close> bound to a column: SQLite stores a NaN as NULL\<close>
  "sqlite_real v = (if v = NaN then None else Some v)"

function str_of_nat :: "nat \<Rightarrow> string" where
  "str_of_nat n =
     (if n < 10 then [digit_char (int n)]
      else str_of_nat (n div 10) @ [digit_char (int (n mod 10))])"
  by pat_completeness auto
termination
  by (relation "measure id") auto

definition str_of_int :: "int \<Rightarrow> string" where
  \<comment> \<open>\<^verbatim>\<open>f"{i}"\<close>\<close>
  "str_of_int i = (if i < 0 then CHR ''-'' # str_of_nat (nat (- i)) else str_of_nat (nat i))"

function group_thousands :: "string \<Rightarrow> string" where
  "group_thousands ds =
     (if length ds \<le> 3 then ds
      else group_thousands (take (length ds - 3) ds) @ CHR '','' # drop (length ds - 3) ds)"
  by pat_completeness auto
termination
  by (relation "measure length") auto

definition str_of_int_commas :: "int \<Rightarrow> string" where
  \<comment> \<open>\<^verbatim>\<open>f"{i:,}"\<close>\<close>
  "str_of_int_commas i =
     (if i < 0 then CHR ''-'' # group_thousands (str_of_nat (nat (- i)))
      else group_thousands (str_of_nat (nat i)))"

definition remove_char :: "char \<Rightarrow> string \<Rightarrow> string" where
  \<comment> \<open>\<^verbatim>\<open>s.replace(c, "")\<close>\<close>
  "remove_char c s = filter (\<lambda>x. x \<noteq> c) s"

text \<open>
  The fields of the menu of \<^verbatim>\<open>update_parcel\<close>: the three numeric ones and the sixteen that
  take the entered text as it is; \<open>field_label\<close> is the label of \<^verbatim>\<open>field_map\<close>.
\<close>

datatype text_field =
  F_status | F_enforcement_step | F_next_action | F_deadline | F_corporate_target
  | F_entity_owner | F_notes | F_business_name | F_county_parcel_id | F_mailing_address
  | F_lender_name | F_lender_address | F_deed_of_trust_ref | F_lender_contact
  | F_loan_number | F_title_company

datatype field = F_sqft | F_past_due_balance | F_weekly_rate | F_text text_field

fun text_label :: "text_field \<Rightarrow> string" where
  "text_label F_status = ''Status''"
| "text_label F_enforcement_step = ''Enforcement Step''"
| "text_label F_next_action = ''Next Action''"
| "text_label F_deadline = ''Deadline (YYYY-MM-DD)''"
| "text_label F_corporate_target = ''Corporate Target''"
| "text_label F_entity_owner = ''Entity/Owner''"
| "text_label F_notes = ''Notes''"
| "text_label F_business_name = ''Business Name''"
| "text_label F_county_parcel_id = ''County Parcel ID''"
| "text_label F_mailing_address = ''Mailing Address''"
| "text_label F_lender_name = ''Lender Name''"
| "text_label F_lender_address = ''Lender Address''"
| "text_label F_deed_of_trust_ref = ''Deed of Trust Ref (book/page)''"
| "text_label F_lender_contact = ''Lender Contact''"
| "text_label F_loan_number = ''Loan Number''"
| "text_label F_title_company = ''Title Company''"

fun field_label :: "field \<Rightarrow> string" where
  "field_label F_sqft = ''Square Footage''"
| "field_label F_past_due_balance = ''Past Due Balance''"
| "field_label F_weekly_rate = ''Weekly Rate''"
| "field_label (F_text f) = text_label f"

fun set_text :: "text_field \<Rightarrow> string \<Rightarrow> parcel \<Rightarrow> parcel" where
  "set_text F_status v row = row\<lparr>status := Some v\<rparr>"
| "set_text F_enforcement_step v row = row\<lparr>enforcement_step := Some v\<rparr>"
| "set_text F_next_action v row = row\<lparr>next_action := Some v\<rparr>"
| "set_text F_deadline v row = row\<lparr>deadline := Some v\<rparr>"
| "set_text F_corporate_target v row = row\<lparr>corporate_target := Some v\<rparr>"
| "set_text F_entity_owner v row = row\<lparr>entity_owner := Some v\<rparr>"
| "set_text F_notes v row = row\<lparr>notes_col := Some v\<rparr>"
| "set_text F_business_name v row = row\<lparr>business_name := Some v\<rparr>"
| "set_text F_county_parcel_id v row = row\<lparr>county_parcel_id := Some v\<rparr>"
| "set_text F_mailing_address v row = row\<lparr>mailing_address := Some v\<rparr>"
| "set_text F_lender_name v row = row\<lparr>lender_name := Some v\<rparr>"
| "set_text F_lender_address v row = row\<lparr>lender_address := Some v\<rparr>"
| "set_text F_deed_of_trust_ref v row = row\<lparr>deed_of_trust_ref := Some v\<rparr>"
| "set_text F_lender_contact v row = row\<lparr>lender_contact := Some v\<rparr>"
| "set_text F_loan_number v row = row\<lparr>loan_number := Some v\<rparr>"
| "set_text F_title_company v row = row\<lparr>title_company := Some v\<rparr>"

text \<open>How a menu operation ends when it raises nothing: the write done, or the early return taken.\<close>

datatype outcome = Updated | Skipped | Invalid_id | No_parcel | Invalid_number

definition change_entry :: "int \<Rightarrow> string \<Rightarrow> string \<Rightarrow> string \<Rightarrow> log_entry" where
  \<comment> \<open>the row of the two short \<^verbatim>\<open>INSERT\<close>s: \<^verbatim>\<open>(parcel_id, timestamp, action, notes)\<close>\<close>
  "change_entry pid now act note =
     \<lparr>parcel_id = Some pid, timestamp = now, action = Some act, sent_via = None,
      response_due = None, response_received = None, next_step = None, attorney = None,
      cost = Some 0, log_notes = Some note\<rparr>"

definition write_and_log ::
  "connection \<Rightarrow> int \<Rightarrow> (parcel \<Rightarrow> parcel) \<Rightarrow> log_entry \<Rightarrow> connection \<times> (py_error + outcome)" where
  \<comment> \<open>the \<^verbatim>\<open>UPDATE\<close>, the \<^verbatim>\<open>INSERT\<close> and the \<^verbatim>\<open>commit\<close> that end both operations\<close>
  "write_and_log conn pid f entry =
     (case update_parcel_row conn pid f of
        Inl e \<Rightarrow> (conn, Inl e)
      | Inr conn1 \<Rightarrow>
        (case insert_log conn1 entry of
           Inl e \<Rightarrow> (conn1, Inl e)
         | Inr conn2 \<Rightarrow> (commit conn2, Inr Updated)))"

text \<open>
  \<^verbatim>\<open>update_parcel\<close> from the parcel id typed (\<open>pid_in\<close>, stripped) on, with the field chosen
  from the menu and the value entered for it (for the two fields with options, the value the
  selection resolves to); the prompts and the printing are left out.
\<close>

definition update_parcel ::
  "builtins \<Rightarrow> connection \<Rightarrow> string \<Rightarrow> field \<Rightarrow> string \<Rightarrow> string \<Rightarrow> connection \<times> (py_error + outcome)" where
  "update_parcel py conn pid_in fld val now =
     (case int_of_str py pid_in of
        None \<Rightarrow> (conn, Inr Invalid_id)
      | Some pid \<Rightarrow>
        (case select_parcel conn pid of
           Inl e \<Rightarrow> (conn, Inl e)
         | Inr None \<Rightarrow> (conn, Inr No_parcel)
         | Inr (Some row) \<Rightarrow>
           (case fld of
              F_sqft \<Rightarrow>
                (case int_of_str py (remove_char CHR '','' val) of
                   None \<Rightarrow> (conn, Inr Invalid_number)
                 | Some v \<Rightarrow>
                     if \<not> sqlite_int v then (conn, Inl OverflowError)
                     else write_and_log conn pid
                            (\<lambda>r. r\<lparr>sqft := Some v, pct_campus := Some (calc_pct v)\<rparr>)
                            (change_entry pid now
                               (''Updated '' @ field_label fld @ '' to: '' @ str_of_int v)
                               ''Changed by user''))
            | F_past_due_balance \<Rightarrow>
                (case float_of_str py (remove_char CHR '','' (remove_char CHR ''$'' val)) of
                   None \<Rightarrow> (conn, Inr Invalid_number)
                 | Some v \<Rightarrow>
                     write_and_log conn pid (\<lambda>r. r\<lparr>past_due_balance := sqlite_real v\<rparr>)
                       (change_entry pid now
                          (''Updated '' @ field_label fld @ '' to: '' @ str_of_float py v)
                          ''Changed by user''))
            | F_weekly_rate \<Rightarrow>
                (case float_of_str py (remove_char CHR '','' (remove_char CHR ''$'' val)) of
                   None \<Rightarrow> (conn, Inr Invalid_number)
                 | Some v \<Rightarrow>
                     write_and_log conn pid (\<lambda>r. r\<lparr>weekly_rate := sqlite_real v\<rparr>)
                       (change_entry pid now
                          (''Updated '' @ field_label fld @ '' to: '' @ str_of_float py v)
                          ''Changed by user''))
            | F_text f \<Rightarrow>
                write_and_log conn pid (set_text f val)
                  (change_entry pid now
                     (''Updated '' @ field_label fld @ '' to: '' @ val)
                     ''Changed by user''))))"

text \<open>
  The square-footage adjustment that ends \<^verbatim>\<open>prorata_calculator\<close>: \<open>adjust\<close> is the answer
  to the prompt for a parcel id (empty to skip) and \<open>new_sf_in\<close> the new area typed.
\<close>

definition prorata_adjust ::
  "builtins \<Rightarrow> connection \<Rightarrow> string \<Rightarrow> string \<Rightarrow> string \<Rightarrow> connection \<times> (py_error + outcome)" where
  "prorata_adjust py conn adjust new_sf_in now =
     (if adjust = [] then (conn, Inr Skipped)
      else case int_of_str py adjust of
        None \<Rightarrow> (conn, Inr Invalid_id)
      | Some pid \<Rightarrow>
        (case select_parcel conn pid of
           Inl e \<Rightarrow> (conn, Inl e)
         | Inr None \<Rightarrow> (conn, Inr No_parcel)
         | Inr (Some row) \<Rightarrow>
           (case int_of_str py (remove_char CHR '','' new_sf_in) of
              None \<Rightarrow> (conn, Inr Invalid_number)
            | Some new_sf \<Rightarrow>
                if \<not> sqlite_int new_sf then (conn, Inl OverflowError)
                else write_and_log conn pid
                       (\<lambda>r. r\<lparr>sqft := Some new_sf, pct_campus := Some (calc_pct new_sf)\<rparr>)
                       (change_entry pid now
                          (''SF updated to '' @ str_of_int_commas new_sf @ '' (was ''
                           @ str_of_int_commas (sqft_or_0 row) @ '')'')
                          ''Pro-rata calculator adjustment''))))"

subsection \<open>A database and built-ins to run the operations on\<close>

text \<open>
  The seeded row under its id 10 with the two campus-wide entries of \<^verbatim>\<open>SEED_LOG\<close> (seeded at
  some time; the dash of the first is its three UTF-8 bytes), committed.
  \<open>plain_int\<close> reads an optional minus sign and ASCII digits, where it agrees with \<^verbatim>\<open>int\<close>;
  \<open>plain_float\<close> reads the same strings and \<^verbatim>\<open>nan\<close>, \<^verbatim>\<open>inf\<close> and \<^verbatim>\<open>-inf\<close>, where it
  agrees with \<^verbatim>\<open>float\<close>; \<open>plain_str\<close> is the text of a whole float below \<open>10\<^sup>1\<^sup>6\<close> and of
  the three special values. \<open>plain_builtins\<close> stands for the built-ins on such strings.
\<close>

definition seed_log :: "log_entry list" where
  "seed_log =
     [\<lparr>parcel_id = None, timestamp = ''2026-01-05 09:00:00'',
       action = Some (''Enforcement tracker created '' @ [CHR 0xE2, CHR 0x80, CHR 0x94]
                      @ '' Vanguard/ARS system operational''),
       sent_via = Some [], response_due = Some [], response_received = Some [],
       next_step = Some ''Finalize demand letters'', attorney = Some ''Rosenblum'',
       cost = Some 0, log_notes = Some []\<rparr>,
      \<lparr>parcel_id = None, timestamp = ''2026-01-05 09:00:00'',
       action = Some ''TARGET: All demands sent via certified mail'',
       sent_via = Some ''USPS Certified'', response_due = Some ''2026-03-15'',
       response_received = Some [], next_step = Some ''Wait 15 days for response'',
       attorney = Some ''Rosenblum'', cost = Some 0,
       log_notes = Some ''Declaration requires 15-day cure period''\<rparr>]"

definition seed_db :: db where
  "seed_db = \<lparr>parcels = [10 \<mapsto> seed_row], enforcement_log = seed_log\<rparr>"

definition seed_conn :: connection where
  "seed_conn = \<lparr>working = seed_db, committed = seed_db\<rparr>"

definition plain_nat :: "string \<Rightarrow> int option" where
  "plain_nat s =
     (if s \<noteq> [] \<and> list_all is_digit s
      then Some (foldl (\<lambda>acc c. 10 * acc + digit_val c) 0 s)
      else None)"

definition plain_int :: "string \<Rightarrow> int option" where
  "plain_int s =
     (case s of
        [] \<Rightarrow> None
      | c # rest \<Rightarrow> if c = CHR ''-'' then map_option uminus (plain_nat rest) else plain_nat s)"

definition plain_float :: "string \<Rightarrow> pyfloat option" where
  "plain_float s =
     (if s = ''nan'' then Some NaN
      else if s = ''inf'' then Some PosInf
      else if s = ''-inf'' then Some NegInf
      else map_option (\<lambda>i. binary64 (of_int i)) (plain_int s))"

fun plain_str :: "pyfloat \<Rightarrow> string" where
  "plain_str (Finite x) = str_of_int \<lfloor>x\<rfloor> @ ''.0''"
| "plain_str PosInf = ''inf''"
| "plain_str NegInf = ''-inf''"
| "plain_str NaN = ''nan''"

definition plain_builtins :: builtins where
  "plain_builtins =
     \<lparr>int_of_str = plain_int, float_of_str = plain_float, str_of_float = plain_str\<rparr>"

section \<open>Properties\<close>

subsection \<open>Rounding\<close>

text \<open>
  \<open>fl\<close> scales by the power of two below its argument, so it rounds with a relative
  error of at most \<open>2\<^sup>-\<^sup>5\<^sup>3\<close>, and only zero rounds to zero.
\<close>

lemma ilog2_lower:
  assumes "0 < x"
  shows "2 powi (ilog2 x) \<le> x"
proof (cases "1 \<le> x")
  case True
  define n where "n = \<lfloor>x\<rfloor>"
  have n: "0 < n" using True by (simp add: n_def)
  have b: "1 \<le> bitlen n" using n by (simp add: bitlen_alt_def)
  have "(2::int) ^ nat (bitlen n - 1) \<le> n" using bitlen_bounds [OF n] by simp
  then have "(of_int ((2::int) ^ nat (bitlen n - 1)) :: rat) \<le> of_int n"
    by (simp only: of_int_le_iff)
  then have "(2::rat) ^ nat (bitlen n - 1) \<le> of_int n" by simp
  also have "\<dots> \<le> x" by (simp add: n_def)
  finally have "(2::rat) ^ nat (bitlen n - 1) \<le> x" .
  moreover have "ilog2 x = bitlen n - 1" using True by (simp add: ilog2_def n_def)
  moreover have "(2::rat) powi (bitlen n - 1) = 2 ^ nat (bitlen n - 1)"
    using b by (simp add: power_int_def)
  ultimately show ?thesis by simp
next
  case False
  define n where "n = \<lceil>1 / x\<rceil> - 1"
  have "1 < 1 / x" using False assms by simp
  then have "2 \<le> \<lceil>1 / x\<rceil>" by linarith
  then have n: "0 < n" by (simp add: n_def)
  have "n < 2 ^ nat (bitlen n)" using bitlen_bounds [OF n] by simp
  then have "n + 1 \<le> 2 ^ nat (bitlen n)" by simp
  then have "(of_int (n + 1) :: rat) \<le> of_int ((2::int) ^ nat (bitlen n))"
    by (simp only: of_int_le_iff)
  then have "(of_int (n + 1) :: rat) \<le> 2 ^ nat (bitlen n)" by simp
  moreover have "1 / x \<le> of_int (n + 1)" by (simp add: n_def)
  ultimately have "1 / x \<le> 2 ^ nat (bitlen n)" by linarith
  then have "1 \<le> 2 ^ nat (bitlen n) * x" using assms by (simp add: field_simps)
  then have "1 / 2 ^ nat (bitlen n) \<le> x" by (simp add: field_simps)
  moreover have "ilog2 x = - bitlen n" using False by (simp add: ilog2_def n_def)
  moreover have "(2::rat) powi (- bitlen n) = 1 / 2 ^ nat (bitlen n)"
  proof -
    have "(2::rat) powi (bitlen n) = 2 ^ nat (bitlen n)"
      using bitlen_nonneg [of n] by (simp add: power_int_def)
    then show ?thesis by (simp only: power_int_minus_divide)
  qed
  ultimately show ?thesis by simp
qed

lemma round_half_even_error: "\<bar>of_int (round_half_even y) - y\<bar> \<le> 1 / 2"
proof -
  define r where "r = y - of_int \<lfloor>y\<rfloor>"
  have r: "0 \<le> r" "r < 1" unfolding r_def by linarith+
  have y: "y = of_int \<lfloor>y\<rfloor> + r" by (simp add: r_def)
  have "round_half_even y = \<lfloor>y\<rfloor> \<and> r \<le> 1 / 2 \<or> round_half_even y = \<lfloor>y\<rfloor> + 1 \<and> 1 / 2 \<le> r"
    unfolding round_half_even_def Let_def r_def [symmetric] by auto
  then show ?thesis
  proof
    assume "round_half_even y = \<lfloor>y\<rfloor> \<and> r \<le> 1 / 2"
    then have "of_int (round_half_even y) - y = - r" "r \<le> 1 / 2" using y by simp_all
    then show ?thesis using r by simp
  next
    assume "round_half_even y = \<lfloor>y\<rfloor> + 1 \<and> 1 / 2 \<le> r"
    then have "of_int (round_half_even y) - y = 1 - r" "1 / 2 \<le> r" using y by simp_all
    then show ?thesis using r by simp
  qed
qed

lemma fl_error: "\<bar>fl x - x\<bar> \<le> \<bar>x\<bar> / 2 ^ 53"
proof (cases "x = 0")
  case True
  then show ?thesis by (simp add: fl_def)
next
  case False
  define a where "a = \<bar>x\<bar>"
  define e where "e = ilog2 a - 52"
  define p where "p = (2::rat) powi e"
  define m where "m = round_half_even (a / p)"
  have a: "0 < a" using False by (simp add: a_def)
  have p: "0 < p" by (simp add: p_def)
  have flx: "fl x = sgn x * (of_int m * p)"
    using False by (simp add: fl_def Let_def a_def e_def p_def m_def)
  have x: "x = sgn x * a" by (simp add: a_def sgn_mult_abs)
  have "fl x - x = sgn x * (of_int m * p - a)"
    using x flx by (simp add: algebra_simps)
  then have "\<bar>fl x - x\<bar> = \<bar>of_int m * p - a\<bar>"
    using False by (simp add: abs_mult abs_sgn_eq)
  also have "of_int m * p - a = (of_int m - a / p) * p" using p by (simp add: field_simps)
  also have "\<bar>\<dots>\<bar> = \<bar>of_int m - a / p\<bar> * p" using p by (simp add: abs_mult)
  also have "\<dots> \<le> 1 / 2 * p"
    using round_half_even_error [of "a / p"] p unfolding m_def
    by (intro mult_right_mono) simp_all
  finally have 1: "\<bar>fl x - x\<bar> \<le> p / 2" by simp
  have "2 powi (ilog2 a) = p * 2 ^ 52"
    unfolding p_def e_def by (simp add: power_int_diff)
  then have "p * 2 ^ 52 \<le> a" using ilog2_lower [OF a] by simp
  then have "p / 2 \<le> a / 2 ^ 53" by simp
  with 1 show ?thesis unfolding a_def by linarith
qed

lemma ilog2_upper:
  assumes "0 < x"
  shows "x < 2 powi (ilog2 x + 1)"
proof (cases "1 \<le> x")
  case True
  define n where "n = \<lfloor>x\<rfloor>"
  have n: "0 < n" using True by (simp add: n_def)
  have b: "0 \<le> bitlen n" by (rule bitlen_nonneg)
  have "n < 2 ^ nat (bitlen n)" using bitlen_bounds [OF n] by simp
  then have "n + 1 \<le> 2 ^ nat (bitlen n)" by simp
  then have "(of_int (n + 1) :: rat) \<le> of_int ((2::int) ^ nat (bitlen n))"
    by (simp only: of_int_le_iff)
  then have "(of_int n :: rat) + 1 \<le> 2 ^ nat (bitlen n)" by simp
  moreover have "x < of_int n + 1" unfolding n_def by linarith
  ultimately have "x < 2 ^ nat (bitlen n)" by linarith
  moreover have "ilog2 x + 1 = bitlen n" using True by (simp add: ilog2_def n_def)
  moreover have "(2::rat) powi (bitlen n) = 2 ^ nat (bitlen n)"
    using b by (simp add: power_int_def)
  ultimately show ?thesis by simp
next
  case False
  define n where "n = \<lceil>1 / x\<rceil> - 1"
  have "1 < 1 / x" using False assms by simp
  then have "2 \<le> \<lceil>1 / x\<rceil>" by linarith
  then have n: "0 < n" by (simp add: n_def)
  then have b: "1 \<le> bitlen n" by (simp add: bitlen_alt_def)
  have "(2::int) ^ nat (bitlen n - 1) \<le> n" using bitlen_bounds [OF n] by simp
  then have "(of_int ((2::int) ^ nat (bitlen n - 1)) :: rat) \<le> of_int n"
    by (simp only: of_int_le_iff)
  then have "(2::rat) ^ nat (bitlen n - 1) \<le> of_int n" by simp
  moreover have "of_int n < 1 / x" unfolding n_def by linarith
  ultimately have "(2::rat) ^ nat (bitlen n - 1) < 1 / x" by linarith
  then have "2 ^ nat (bitlen n - 1) * x < 1" using assms by (simp add: field_simps)
  then have lt: "x < 1 / 2 ^ nat (bitlen n - 1)" by (simp add: field_simps)
  have "ilog2 x + 1 = - (bitlen n - 1)" using False by (simp add: ilog2_def n_def)
  moreover have "(2::rat) powi (- (bitlen n - 1)) = 1 / 2 ^ nat (bitlen n - 1)"
  proof -
    have "(2::rat) powi (bitlen n - 1) = 2 ^ nat (bitlen n - 1)"
      using b by (simp add: power_int_def)
    then show ?thesis by (simp only: power_int_minus_divide)
  qed
  ultimately show ?thesis using lt by simp
qed

lemma round_half_even_mono_bounds:
  assumes "of_int a \<le> y" "y \<le> of_int b"
  shows "a \<le> round_half_even y \<and> round_half_even y \<le> b"
proof -
  have f: "a \<le> \<lfloor>y\<rfloor>" using assms(1) by (simp add: le_floor_iff)
  have c: "\<lfloor>y\<rfloor> \<le> b" using assms(2) by (simp add: floor_le_iff)
  have r: "round_half_even y = \<lfloor>y\<rfloor> \<or> (round_half_even y = \<lfloor>y\<rfloor> + 1 \<and> of_int \<lfloor>y\<rfloor> < y)"
    unfolding round_half_even_def Let_def by auto
  have "\<lfloor>y\<rfloor> + 1 \<le> b" if "of_int \<lfloor>y\<rfloor> < y"
  proof -
    have "of_int \<lfloor>y\<rfloor> < (of_int b :: rat)" using that assms(2) by linarith
    then have "\<lfloor>y\<rfloor> < b" by (simp only: of_int_less_iff)
    then show ?thesis by simp
  qed
  then show ?thesis using f c r by auto
qed

lemma fl_significand:
  assumes "x \<noteq> 0"
  shows "\<exists>m e. fl x = sgn x * of_int m * 2 powi e \<and> 2 ^ 52 \<le> m \<and> m \<le> 2 ^ 53"
proof -
  define a where "a = \<bar>x\<bar>"
  define e where "e = ilog2 a - 52"
  define p where "p = (2::rat) powi e"
  define m where "m = round_half_even (a / p)"
  have a: "0 < a" using assms by (simp add: a_def)
  have p: "0 < p" by (simp add: p_def)
  have lo: "p * 2 ^ 52 = 2 powi (ilog2 a)" unfolding p_def e_def by (simp add: power_int_diff)
  have hi: "p * 2 ^ 53 = 2 powi (ilog2 a + 1)"
    unfolding p_def e_def by (simp add: power_int_diff power_int_add)
  have "p * 2 ^ 52 \<le> a" using ilog2_lower [OF a] lo by simp
  then have 1: "2 ^ 52 \<le> a / p" using p by (simp add: field_simps)
  have "a < p * 2 ^ 53" using ilog2_upper [OF a] hi by simp
  then have 2: "a / p \<le> 2 ^ 53" using p by (simp add: field_simps)
  have "(2::int) ^ 52 \<le> m \<and> m \<le> 2 ^ 53"
    unfolding m_def using 1 2 by (intro round_half_even_mono_bounds) simp_all
  moreover have "fl x = sgn x * of_int m * p"
    using assms by (simp add: fl_def Let_def a_def e_def p_def m_def)
  ultimately show ?thesis unfolding p_def by blast
qed

lemma fl_eq_0_iff: "fl x = 0 \<longleftrightarrow> x = 0"
proof
  assume "fl x = 0"
  then have "\<bar>x\<bar> \<le> \<bar>x\<bar> / 2 ^ 53" using fl_error [of x] by simp
  then have "\<bar>x\<bar> * 2 ^ 53 \<le> \<bar>x\<bar>" by (simp add: field_simps)
  then show "x = 0" by simp
qed (simp add: fl_def)

lemma float_of_int_eq_0_iff: "float_of_int i = 0 \<longleftrightarrow> i = 0"
  by (simp add: float_of_int_def fl_eq_0_iff)

lemma WEEKS_PER_MONTH_value: "WEEKS_PER_MONTH = 2439262148174545 / 2 ^ 49"
  by code_simp

lemma CURRENT_WEEKLY_RATE_value: "CURRENT_WEEKLY_RATE = 9000"
  by code_simp

lemma calc_current_weekly_total: "calc_current_weekly TOTAL_CAMPUS_SQFT = 9000"
  by code_simp

subsection \<open>The binary64 format\<close>

text \<open>
  \<open>binary64\<close> returns an infinity exactly from \<open>2\<^sup>1\<^sup>0\<^sup>2\<^sup>4 - 2\<^sup>9\<^sup>7\<^sup>0\<close> on, the midpoint between the
  largest float and \<open>2\<^sup>1\<^sup>0\<^sup>2\<^sup>4\<close>, and agrees with \<open>fl\<close> between \<open>2\<^sup>-\<^sup>1\<^sup>0\<^sup>2\<^sup>2\<close> and that bound.
  Hence an \<^verbatim>\<open>int\<close> converts to a float if and only if its magnitude is below the bound.
\<close>

lemma ilog2_unique:
  assumes "0 < x" "2 powi k \<le> x" "x < 2 powi (k + 1)"
  shows "ilog2 x = k"
proof (rule antisym)
  show "ilog2 x \<le> k"
  proof (rule ccontr)
    assume "\<not> ilog2 x \<le> k"
    then have "k + 1 \<le> ilog2 x" by simp
    then have "(2::rat) powi (k + 1) \<le> 2 powi (ilog2 x)" by (intro power_int_increasing) simp_all
    with ilog2_lower [OF assms(1)] assms(3) show False by linarith
  qed
  show "k \<le> ilog2 x"
  proof (rule ccontr)
    assume "\<not> k \<le> ilog2 x"
    then have "ilog2 x + 1 \<le> k" by simp
    then have "(2::rat) powi (ilog2 x + 1) \<le> 2 powi k" by (intro power_int_increasing) simp_all
    with ilog2_upper [OF assms(1)] assms(2) show False by linarith
  qed
qed

lemma ilog2_ge:
  assumes "0 < x" "2 powi k \<le> x"
  shows "k \<le> ilog2 x"
proof (rule ccontr)
  assume "\<not> k \<le> ilog2 x"
  then have "ilog2 x + 1 \<le> k" by simp
  then have "(2::rat) powi (ilog2 x + 1) \<le> 2 powi k" by (intro power_int_increasing) simp_all
  with ilog2_upper [OF assms(1)] assms(2) show False by linarith
qed

lemma ilog2_less:
  assumes "0 < x" "x < 2 powi k"
  shows "ilog2 x < k"
proof (rule ccontr)
  assume "\<not> ilog2 x < k"
  then have "k \<le> ilog2 x" by simp
  then have "(2::rat) powi k \<le> 2 powi (ilog2 x)" by (intro power_int_increasing) simp_all
  with ilog2_lower [OF assms(1)] assms(2) show False by linarith
qed

lemma round_half_even_less:
  assumes "y < of_int N - 1 / 2"
  shows "round_half_even y < N"
proof -
  have "of_int (round_half_even y) - y \<le> 1 / 2"
    using round_half_even_error [of y] by linarith
  then have "(of_int (round_half_even y) :: rat) < of_int N" using assms by linarith
  then show ?thesis by (simp only: of_int_less_iff)
qed

lemma round_half_even_ge:
  assumes "of_int N - 1 / 2 \<le> y" "even N"
  shows "N \<le> round_half_even y"
proof (cases "of_int N \<le> y")
  case True
  then have "N \<le> \<lfloor>y\<rfloor>" by (simp add: le_floor_iff)
  moreover have "\<lfloor>y\<rfloor> \<le> round_half_even y" by (simp add: round_half_even_def Let_def)
  ultimately show ?thesis by linarith
next
  case False
  then have f: "\<lfloor>y\<rfloor> = N - 1" using assms(1) by (intro floor_unique) auto
  then have o: "odd \<lfloor>y\<rfloor>" using assms(2) by simp
  have r: "1 / 2 \<le> y - of_int \<lfloor>y\<rfloor>" using f assms(1) by simp
  have "round_half_even y = \<lfloor>y\<rfloor> + 1"
    unfolding round_half_even_def Let_def using o r by auto
  then show ?thesis using f by simp
qed

lemma binary64_consts:
  "(2::rat) powi 1023 \<le> 2 ^ 1024 - 2 ^ 970"
  "2 ^ 1024 - 2 ^ 970 < (2::rat) powi 1024"
  "(2 ^ 53 - 1 / 2) * (2::rat) powi 971 = 2 ^ 1024 - 2 ^ 970"
  "2 ^ 53 * (2::rat) powi 971 = 2 ^ 1024"
  "(2::rat) powi 1023 < 2 ^ 1024"
  "(2::rat) powi 1024 = 2 ^ 1024"
  by simp_all

lemma scaled_round_bounds:
  assumes "0 < a"
  shows "(2::rat) powi (ilog2 a) \<le> of_int (round_half_even (a / 2 powi (ilog2 a - 52))) * 2 powi (ilog2 a - 52)"
    and "of_int (round_half_even (a / 2 powi (ilog2 a - 52))) * 2 powi (ilog2 a - 52) \<le> (2::rat) powi (ilog2 a + 1)"
proof -
  define p where "p = (2::rat) powi (ilog2 a - 52)"
  define m where "m = round_half_even (a / p)"
  have p: "0 < p" by (simp add: p_def)
  have lo: "2 ^ 52 * p = 2 powi (ilog2 a)" unfolding p_def by (simp add: power_int_diff)
  have hi: "2 ^ 53 * p = 2 powi (ilog2 a + 1)"
    unfolding p_def by (simp add: power_int_diff power_int_add)
  have "2 ^ 52 * p \<le> a" using ilog2_lower [OF assms] lo by simp
  then have 1: "2 ^ 52 \<le> a / p" using p by (simp add: field_simps)
  have "a < 2 ^ 53 * p" using ilog2_upper [OF assms] hi by simp
  then have 2: "a / p \<le> 2 ^ 53" using p by (simp add: field_simps)
  have m: "(2::int) ^ 52 \<le> m \<and> m \<le> 2 ^ 53"
    unfolding m_def using 1 2 by (intro round_half_even_mono_bounds) simp_all
  then have "(of_int ((2::int) ^ 52) :: rat) \<le> of_int m" "(of_int m :: rat) \<le> of_int ((2::int) ^ 53)"
    by (simp_all only: of_int_le_iff)
  then have m': "(2::rat) ^ 52 \<le> of_int m" "(of_int m :: rat) \<le> 2 ^ 53" by simp_all
  have "2 ^ 52 * p \<le> of_int m * p" using m'(1) p by (intro mult_right_mono) simp_all
  then have "2 powi (ilog2 a) \<le> of_int m * p" unfolding lo .
  then show "(2::rat) powi (ilog2 a) \<le> of_int (round_half_even (a / 2 powi (ilog2 a - 52))) * 2 powi (ilog2 a - 52)"
    unfolding m_def p_def .
  have "of_int m * p \<le> 2 ^ 53 * p" using m'(2) p by (intro mult_right_mono) simp_all
  then have "of_int m * p \<le> 2 powi (ilog2 a + 1)" unfolding hi .
  then show "of_int (round_half_even (a / 2 powi (ilog2 a - 52))) * 2 powi (ilog2 a - 52) \<le> (2::rat) powi (ilog2 a + 1)"
    unfolding m_def p_def .
qed

lemma binary64_overflow:
  assumes "2 ^ 1024 - 2 ^ 970 \<le> \<bar>x\<bar>"
  shows "binary64 x = (if 0 < x then PosInf else NegInf)"
proof -
  define a where "a = \<bar>x\<bar>"
  define k where "k = ilog2 a"
  define y where "y = of_int (round_half_even (a / 2 powi (k - 52))) * (2::rat) powi (k - 52)"
  have T: "2 ^ 1024 - 2 ^ 970 \<le> a" using assms by (simp add: a_def)
  have a: "0 < a" using T binary64_consts(1) zero_less_power_int [of "2::rat" 1023] by linarith
  then have x: "x \<noteq> 0" by (auto simp: a_def)
  have "(2::rat) powi 1023 \<le> a" using T binary64_consts(1) by linarith
  then have k: "1023 \<le> k" unfolding k_def using a by (intro ilog2_ge)
  have "2 ^ 1024 \<le> y"
  proof (cases "k = 1023")
    case True
    have p: "(0::rat) < 2 powi 971" by simp
    have "(2 ^ 53 - 1 / 2) * (2::rat) powi 971 \<le> a" using T binary64_consts(3) by simp
    then have "2 ^ 53 - 1 / 2 \<le> a / 2 powi 971" using p by (simp add: field_simps)
    then have "of_int ((2::int) ^ 53) - 1 / 2 \<le> a / 2 powi 971" by simp
    then have "(2::int) ^ 53 \<le> round_half_even (a / 2 powi 971)"
      by (rule round_half_even_ge) simp
    then have "(of_int ((2::int) ^ 53) :: rat) \<le> of_int (round_half_even (a / 2 powi 971))"
      by (simp only: of_int_le_iff)
    then have "(2::rat) ^ 53 \<le> of_int (round_half_even (a / 2 powi 971))" by simp
    then have "2 ^ 53 * (2::rat) powi 971 \<le> of_int (round_half_even (a / 2 powi 971)) * 2 powi 971"
      using p by (intro mult_right_mono) simp_all
    then show ?thesis using binary64_consts(4) True by (simp add: y_def)
  next
    case False
    then have "1024 \<le> k" using k by simp
    then have "(2::rat) powi 1024 \<le> 2 powi k" by (intro power_int_increasing) simp_all
    moreover have "2 powi k \<le> y" unfolding y_def k_def by (rule scaled_round_bounds(1) [OF a])
    ultimately show ?thesis using binary64_consts(6) by linarith
  qed
  moreover have "max (k - 52) (- 1074) = k - 52" using k by simp
  ultimately show ?thesis
    using x by (simp add: binary64_def Let_def a_def [symmetric] k_def [symmetric] y_def)
qed

lemma binary64_normal:
  assumes "2 powi (- 1022) \<le> \<bar>x\<bar>" and "\<bar>x\<bar> < 2 ^ 1024 - 2 ^ 970"
  shows "binary64 x = Finite (fl x)"
proof -
  define a where "a = \<bar>x\<bar>"
  define k where "k = ilog2 a"
  define y where "y = of_int (round_half_even (a / 2 powi (k - 52))) * (2::rat) powi (k - 52)"
  have lo: "2 powi (- 1022) \<le> a" and T: "a < 2 ^ 1024 - 2 ^ 970"
    using assms by (simp_all add: a_def)
  have a: "0 < a" using lo zero_less_power_int [of "2::rat" "- 1022"] by linarith
  then have x: "x \<noteq> 0" by (auto simp: a_def)
  have k1: "- 1022 \<le> k" unfolding k_def using a lo by (intro ilog2_ge)
  have "a < 2 powi 1024" using T binary64_consts(2) by linarith
  then have "k < 1024" unfolding k_def using a by (intro ilog2_less)
  then have k2: "k \<le> 1023" by simp
  have "y < 2 ^ 1024"
  proof (cases "k = 1023")
    case True
    have p: "(0::rat) < 2 powi 971" by simp
    have "a < (2 ^ 53 - 1 / 2) * (2::rat) powi 971" using T binary64_consts(3) by simp
    then have "a / 2 powi 971 < 2 ^ 53 - 1 / 2" using p by (simp add: field_simps)
    then have "a / 2 powi 971 < of_int ((2::int) ^ 53) - 1 / 2" by simp
    then have "round_half_even (a / 2 powi 971) < 2 ^ 53" by (rule round_half_even_less)
    then have "round_half_even (a / 2 powi 971) \<le> 2 ^ 53 - 1" by simp
    then have "(of_int (round_half_even (a / 2 powi 971)) :: rat) \<le> of_int (2 ^ 53 - 1)"
      by (simp only: of_int_le_iff)
    then have "of_int (round_half_even (a / 2 powi 971)) * (2::rat) powi 971
        \<le> of_int (2 ^ 53 - 1) * 2 powi 971"
      using p by (intro mult_right_mono) simp_all
    moreover have "of_int (2 ^ 53 - 1) * (2::rat) powi 971 < 2 ^ 1024" by simp
    ultimately show ?thesis using True by (simp add: y_def)
  next
    case False
    then have "k + 1 \<le> 1023" using k2 by simp
    then have "(2::rat) powi (k + 1) \<le> 2 powi 1023" by (intro power_int_increasing) simp_all
    moreover have "y \<le> 2 powi (k + 1)" unfolding y_def k_def by (rule scaled_round_bounds(2) [OF a])
    ultimately show ?thesis using binary64_consts(5) by linarith
  qed
  moreover have "max (k - 52) (- 1074) = k - 52" using k1 by simp
  ultimately show ?thesis
    using x by (simp add: binary64_def fl_def Let_def a_def [symmetric] k_def [symmetric] y_def
        mult.assoc)
qed

lemma scaled_round_upper:
  assumes "0 < a" and "ilog2 a - 52 \<le> e"
  shows "round_half_even (a / 2 powi e) \<le> 2 ^ 53"
proof -
  have "(2::rat) powi (ilog2 a + 1) \<le> 2 powi (e + 53)"
    using assms(2) by (intro power_int_increasing) simp_all
  then have "a < 2 powi (e + 53)" using ilog2_upper [OF assms(1)] by linarith
  also have "(2::rat) powi (e + 53) = 2 ^ 53 * 2 powi e" by (simp add: power_int_add)
  finally have "a / 2 powi e \<le> 2 ^ 53" by (simp add: field_simps)
  moreover have "0 \<le> a / (2::rat) powi e" using assms(1) by simp
  ultimately have "0 \<le> round_half_even (a / 2 powi e) \<and> round_half_even (a / 2 powi e) \<le> 2 ^ 53"
    by (intro round_half_even_mono_bounds) simp_all
  then show ?thesis ..
qed

lemma binary64_overflow_test:
  assumes "0 < a"
  defines "e \<equiv> max (ilog2 a - 52) (- 1074)"
  defines "m \<equiv> round_half_even (a / 2 powi e)"
  shows "2 ^ 1024 \<le> of_int m * (2::rat) powi e \<longleftrightarrow> 971 < e \<or> (e = 971 \<and> 2 ^ 53 \<le> m)"
proof -
  have p: "(0::rat) < 2 powi e" by simp
  have mu: "m \<le> 2 ^ 53" unfolding m_def by (rule scaled_round_upper [OF assms(1)]) (simp add: e_def)
  then have "(of_int m :: rat) \<le> of_int (2 ^ 53)" by (simp only: of_int_le_iff)
  then have mu': "(of_int m :: rat) \<le> 2 ^ 53" by simp
  consider "971 < e" | "e = 971" | "e < 971" by linarith
  then show ?thesis
  proof cases
    case 1
    then have e: "e = ilog2 a - 52" by (auto simp: e_def max_def split: if_splits)
    have "2 powi (ilog2 a) \<le> of_int m * (2::rat) powi e"
      unfolding m_def e using scaled_round_bounds(1) [OF assms(1)] .
    moreover have "(2::rat) powi 1024 \<le> 2 powi (ilog2 a)"
      using 1 e by (intro power_int_increasing) simp_all
    ultimately show ?thesis using 1 binary64_consts(6) by simp
  next
    case 2
    show ?thesis
    proof (cases "2 ^ 53 \<le> m")
      case True
      then have "(of_int (2 ^ 53) :: rat) \<le> of_int m" by (simp only: of_int_le_iff)
      then have "(2::rat) ^ 53 \<le> of_int m" by simp
      then have "2 ^ 53 * (2::rat) powi 971 \<le> of_int m * 2 powi 971"
        by (intro mult_right_mono) simp_all
      then show ?thesis using True 2 binary64_consts(4) by simp
    next
      case False
      then have "m \<le> 2 ^ 53 - 1" by simp
      then have "(of_int m :: rat) \<le> of_int (2 ^ 53 - 1)" by (simp only: of_int_le_iff)
      then have "of_int m * (2::rat) powi 971 \<le> of_int (2 ^ 53 - 1) * 2 powi 971"
        by (intro mult_right_mono) simp_all
      moreover have "of_int (2 ^ 53 - 1) * (2::rat) powi 971 < 2 ^ 1024" by simp
      ultimately show ?thesis using False 2 by simp
    qed
  next
    case 3
    then have "e \<le> 970" by simp
    then have "(2::rat) powi e \<le> 2 powi 970" by (intro power_int_increasing) simp_all
    then have "2 ^ 53 * (2::rat) powi e \<le> 2 ^ 53 * 2 powi 970" by simp
    moreover have "of_int m * (2::rat) powi e \<le> 2 ^ 53 * 2 powi e"
      using mu' p by (intro mult_right_mono) simp_all
    moreover have "2 ^ 53 * (2::rat) powi 970 < 2 ^ 1024" by simp
    ultimately have "of_int m * (2::rat) powi e < 2 ^ 1024" by linarith
    then show ?thesis using 3 by simp
  qed
qed

text \<open>The test for overflow on the exponent and the significand, for evaluation.\<close>

lemma binary64_code [code]:
  "binary64 x =
     (if x = 0 then Finite 0
      else let e = max (ilog2 \<bar>x\<bar> - 52) (- 1074);
               m = round_half_even (\<bar>x\<bar> / 2 powi e)
           in if 971 < e \<or> (e = 971 \<and> 9007199254740992 \<le> m)
              then (if 0 < x then PosInf else NegInf)
              else Finite (sgn x * (of_int m * 2 powi e)))"
proof (cases "x = 0")
  case True
  then show ?thesis by (simp add: binary64_def)
next
  case False
  then have a: "0 < \<bar>x\<bar>" by simp
  show ?thesis
    using False binary64_overflow_test [OF a]
    by (simp add: binary64_def Let_def)
qed

lemma rat_of_int_threshold:
  "\<bar>i\<bar> < 2 ^ 1024 - 2 ^ 970 \<longleftrightarrow> \<bar>of_int i :: rat\<bar> < 2 ^ 1024 - 2 ^ 970"
proof -
  have "\<bar>i\<bar> < 2 ^ 1024 - 2 ^ 970 \<longleftrightarrow> (of_int \<bar>i\<bar> :: rat) < of_int (2 ^ 1024 - 2 ^ 970)"
    by (simp only: of_int_less_iff)
  then show ?thesis by simp
qed

lemma float_of_pyint_ok:
  assumes "\<bar>i\<bar> < 2 ^ 1024 - 2 ^ 970"
  shows "float_of_pyint i = Inr (Finite (float_of_int i))"
proof (cases "i = 0")
  case True
  then show ?thesis by (simp add: float_of_pyint_def float_of_int_def binary64_def fl_def)
next
  case False
  then have "1 \<le> \<bar>i\<bar>" by simp
  then have "(of_int 1 :: rat) \<le> of_int \<bar>i\<bar>" by (simp only: of_int_le_iff)
  then have "1 \<le> \<bar>of_int i :: rat\<bar>" by simp
  moreover have "(2::rat) powi (- 1022) \<le> 1" by (simp add: power_int_minus field_simps)
  ultimately have "(2::rat) powi (- 1022) \<le> \<bar>of_int i\<bar>" by linarith
  then have "binary64 (of_int i) = Finite (fl (of_int i))"
    using assms [unfolded rat_of_int_threshold] by (rule binary64_normal)
  then show ?thesis by (simp add: float_of_pyint_def float_of_int_def)
qed

lemma float_of_pyint_overflow:
  assumes "2 ^ 1024 - 2 ^ 970 \<le> \<bar>i\<bar>"
  shows "float_of_pyint i = Inl OverflowError"
proof -
  have "\<not> \<bar>of_int i :: rat\<bar> < 2 ^ 1024 - 2 ^ 970"
    using assms rat_of_int_threshold [of i] by simp
  then have "2 ^ 1024 - 2 ^ 970 \<le> \<bar>of_int i :: rat\<bar>" by simp
  then have "binary64 (of_int i) = (if 0 < (of_int i :: rat) then PosInf else NegInf)"
    by (rule binary64_overflow)
  then show ?thesis by (simp add: float_of_pyint_def)
qed

lemma float_of_pyint_cases:
  "float_of_pyint i = Inl OverflowError \<or> float_of_pyint i = Inr (Finite (float_of_int i))"
  using float_of_pyint_ok [of i] float_of_pyint_overflow [of i] by linarith

lemma pyint_truediv_12_ok:
  assumes "\<bar>i\<bar> < 2 ^ 1024 - 2 ^ 970"
  shows "pyint_truediv i 12 = Inr (Finite (fl (of_int i / 12)))"
proof (cases "i = 0")
  case True
  then show ?thesis by (simp add: pyint_truediv_def binary64_def fl_def)
next
  case False
  then have "1 \<le> \<bar>i\<bar>" by simp
  then have "(of_int 1 :: rat) \<le> of_int \<bar>i\<bar>" by (simp only: of_int_le_iff)
  then have i1: "1 \<le> \<bar>of_int i :: rat\<bar>" by simp
  have "(2::rat) powi (- 1022) \<le> 1 / 12" by (simp add: power_int_minus field_simps)
  also have "\<dots> \<le> \<bar>of_int i :: rat\<bar> / 12" using i1 by simp
  finally have lo: "(2::rat) powi (- 1022) \<le> \<bar>of_int i / 12\<bar>" by simp
  have "\<bar>of_int i / 12 :: rat\<bar> \<le> \<bar>of_int i\<bar>" by simp
  then have hi: "\<bar>of_int i / 12 :: rat\<bar> < 2 ^ 1024 - 2 ^ 970"
    using assms [unfolded rat_of_int_threshold] by linarith
  have "binary64 (of_int i / 12) = Finite (fl (of_int i / 12))"
    using lo hi by (rule binary64_normal)
  then show ?thesis by (simp add: pyint_truediv_def)
qed

lemma pyint_truediv_12_cases:
  "pyint_truediv i 12 = Inl OverflowError \<or> (\<exists>y. pyint_truediv i 12 = Inr (Finite y))"
  by (cases "binary64 (of_int i / 12)") (simp_all add: pyint_truediv_def)

lemma float_div_int_cases:
  assumes "i \<noteq> 0"
  shows "float_div_int a i = Inl OverflowError \<or> (\<exists>y. float_div_int a i = Inr y)"
proof -
  have "float_of_int i \<noteq> 0" using assms by (simp add: float_of_int_eq_0_iff)
  then show ?thesis
    using float_of_pyint_cases [of i] by (auto simp: float_div_int_def float_truediv_def)
qed

lemma float_div_int_ok:
  assumes "i \<noteq> 0" and "\<bar>i\<bar> < 2 ^ 1024 - 2 ^ 970"
  shows "\<exists>y. float_div_int a i = Inr y \<and> float_truediv a (Finite (float_of_int i)) = Inr y"
proof -
  have "float_of_int i \<noteq> 0" using assms(1) by (simp add: float_of_int_eq_0_iff)
  then show ?thesis
    using float_of_pyint_ok [OF assms(2)] by (simp add: float_div_int_def float_truediv_def)
qed

subsection \<open>Arrears\<close>

lemma float_of_ARREARS_WEEKS: "float_of_int ARREARS_WEEKS = 156"
  by code_simp

text \<open>
  C1. \<^verbatim>\<open>get_arrears\<close> returns a stored past-due balance that is neither NULL nor zero
  as it is, negative values included. With the balance NULL or zero it returns
  \<^verbatim>\<open>calc_historic_weekly(sqft or 0) * 156\<close> for the statuses DELINQUENT, DISPUTED and
  RECON, and zero for every other status.
\<close>

theorem get_arrears_policy:
  "(\<forall>b. past_due_balance row = Some b \<and> b \<noteq> Finite 0 \<longrightarrow> get_arrears row = b) \<and>
   (past_due_balance row = None \<or> past_due_balance row = Some (Finite 0) \<longrightarrow>
      (status row \<in> {Some ''DELINQUENT'', Some ''DISPUTED'', Some ''RECON''} \<longrightarrow>
         get_arrears row = Finite (fmul (calc_historic_weekly (sqft_or_0 row)) 156)) \<and>
      (status row \<notin> {Some ''DELINQUENT'', Some ''DISPUTED'', Some ''RECON''} \<longrightarrow>
         get_arrears row = Finite 0))"
  unfolding get_arrears_def calc_arrears_36mo_def float_of_ARREARS_WEEKS by auto

theorem get_arrears_policy_witness:
  "get_arrears (seed_row\<lparr>past_due_balance := Some (Finite (- 250))\<rparr>) = Finite (- 250) \<and>
   get_arrears (seed_row\<lparr>past_due_balance := Some PosInf\<rparr>) = PosInf \<and>
   get_arrears seed_row = Finite (fmul (calc_historic_weekly 31061) 156) \<and>
   get_arrears (seed_row\<lparr>past_due_balance := Some (Finite 0)\<rparr>)
     = Finite (fmul (calc_historic_weekly 31061) 156) \<and>
   get_arrears (seed_row\<lparr>past_due_balance := Some (Finite 0), status := Some ''CURRENT''\<rparr>)
     = Finite 0"
  using get_arrears_policy [of "seed_row\<lparr>past_due_balance := Some (Finite (- 250))\<rparr>"]
        get_arrears_policy [of "seed_row\<lparr>past_due_balance := Some PosInf\<rparr>"]
        get_arrears_policy [of seed_row]
        get_arrears_policy [of "seed_row\<lparr>past_due_balance := Some (Finite 0)\<rparr>"]
        get_arrears_policy [of "seed_row\<lparr>past_due_balance := Some (Finite 0),
                                          status := Some ''CURRENT''\<rparr>"]
  by (simp add: seed_row_def sqft_or_0_def)

subsection \<open>Forward monthly billing\<close>

text \<open>
  C5, as stated, at the weekly rate 1: the forward monthly figure is the double nearest
  4.333, which is neither \<open>365.25 / 12 / 7\<close> (about 4.348) computed exactly nor that
  quotient computed in floats; the two differ by more than 0.015.
\<close>

theorem forward_monthly_factor_counterexample:
  "get_weekly (seed_row\<lparr>weekly_rate := Some (Finite 1)\<rparr>) = Finite 1 \<and>
   get_forward_monthly (seed_row\<lparr>weekly_rate := Some (Finite 1)\<rparr>)
     = Finite (2439262148174545 / 2 ^ 49) \<and>
   get_forward_monthly (seed_row\<lparr>weekly_rate := Some (Finite 1)\<rparr>)
     \<noteq> Finite (1 * (36525 / 100 / 12 / 7)) \<and>
   get_forward_monthly (seed_row\<lparr>weekly_rate := Some (Finite 1)\<rparr>)
     \<noteq> Finite (fmul 1 (fl (fl (36525 / 100 / 12) / 7))) \<and>
   1 * (36525 / 100 / 12 / 7) - 2439262148174545 / 2 ^ 49 > (15 / 1000 :: rat)"
  by code_simp

text \<open>
  C5, amended. For every row, \<^verbatim>\<open>get_forward_monthly\<close> is the weekly rate of the row times
  the float literal \<^verbatim>\<open>4.333\<close>, and \<^verbatim>\<open>calc_forward_monthly\<close> is the current weekly charge
  of the area times the same literal; the literal is the double
  \<open>2439262148174545 / 2\<^sup>4\<^sup>9\<close>.
\<close>

theorem forward_monthly_multiplier:
  "get_forward_monthly row = float_mul (get_weekly row) (Finite (fl (4333 / 1000))) \<and>
   calc_forward_monthly a = fmul (calc_current_weekly a) (fl (4333 / 1000)) \<and>
   fl (4333 / 1000) = 2439262148174545 / 2 ^ 49"
  unfolding get_forward_monthly_def calc_forward_monthly_def
  using WEEKS_PER_MONTH_value by (simp add: WEEKS_PER_MONTH_def)

subsection \<open>Settlement\<close>

lemma settlement_example:
  "calc_settlement (Finite 100000) (binary64 (35 / 100)) (binary64 (2 / 100)) 36 =
     Inr \<lparr>settled_amount = Finite 65000,
          monthly_no_interest = Finite (1985229327928889 / 2 ^ 40),
          total_with_interest = Finite 68900,
          monthly_with_interest = Finite (8417372350418489 / 2 ^ 42),
          savings_vs_full = Finite 35000,
          savings_pct = binary64 (35 / 100),
          savings_vs_litigation = Finite 71100\<rparr>"
  by code_simp

lemma settlement_example_monthly:
  "\<bar>1985229327928889 / 2 ^ 40 - 180556 / 100\<bar> < (5 / 1000 :: rat) \<and>
   \<bar>8417372350418489 / 2 ^ 42 - 191389 / 100\<bar> < (5 / 1000 :: rat)"
  by simp

lemma calc_settlement_overflow:
  assumes "2 ^ 1024 - 2 ^ 970 \<le> \<bar>term_months\<bar>"
  shows "calc_settlement principal_amt discount_pct interest_rate term_months = Inl OverflowError"
proof -
  have "term_months \<noteq> 0" using assms by auto
  then show ?thesis
    using float_of_pyint_overflow [OF assms]
    by (simp add: calc_settlement_def float_div_int_def Let_def)
qed

text \<open>
  C4, as stated, at \<^verbatim>\<open>term_months = 10 ** 400\<close>, which \<^verbatim>\<open>int(term_str)\<close> reads from 401
  digits: the term is too large for a float, so \<^verbatim>\<open>settled / term_months\<close> raises
  \<^verbatim>\<open>OverflowError\<close> and nothing is returned.
\<close>

theorem calc_settlement_overflow_counterexample:
  "calc_settlement (Finite 100000) (binary64 (35 / 100)) (binary64 (2 / 100)) (10 ^ 400)
     = Inl OverflowError"
  by (rule calc_settlement_overflow) simp

text \<open>
  C4, amended. For every float principal, discount and rate and every term whose magnitude is
  below \<open>2\<^sup>1\<^sup>0\<^sup>2\<^sup>4 - 2\<^sup>9\<^sup>7\<^sup>0\<close> (the \<^verbatim>\<open>int\<close>s that convert to a float), \<^verbatim>\<open>calc_settlement\<close>
  returns a record with settled = principal * (1 - discount), total with interest
  = settled * (1 + rate * (term_months / 12)), savings vs full = principal - settled and
  savings vs litigation = principal * 1.40 - total with interest (the litigation estimate
  is a local value, not a key of the record), every operation being the float operation.
  For \<^verbatim>\<open>term_months \<noteq> 0\<close> the monthly figures are settled / term_months and
  total with interest / term_months; for \<^verbatim>\<open>term_months = 0\<close> both are 0. For every larger
  term the call raises \<^verbatim>\<open>OverflowError\<close>.
  \<^verbatim>\<open>calc_settlement(100000, 0.35, 0.02, 36)\<close> gives exactly 65000, 68900, 35000 and 71100,
  with monthly figures within half a cent of 1805.56 and 1913.89.
\<close>

theorem calc_settlement_formulas:
  "(\<bar>term_months\<bar> < 2 ^ 1024 - 2 ^ 970 \<longrightarrow>
      (\<exists>r. calc_settlement principal_amt discount_pct interest_rate term_months = Inr r \<and>
         settled_amount r = float_mul principal_amt (float_sub (Finite 1) discount_pct) \<and>
         pyint_truediv term_months 12 = Inr (Finite (fl (of_int term_months / 12))) \<and>
         total_with_interest r =
           float_mul (settled_amount r)
             (float_add (Finite 1)
                (float_mul interest_rate (Finite (fl (of_int term_months / 12))))) \<and>
         savings_vs_full r = float_sub principal_amt (settled_amount r) \<and>
         savings_pct r = discount_pct \<and>
         savings_vs_litigation r =
           float_sub (float_mul principal_amt (Finite (fl (140 / 100)))) (total_with_interest r) \<and>
         (term_months \<noteq> 0 \<longrightarrow>
            float_of_pyint term_months = Inr (Finite (fl (of_int term_months))) \<and>
            float_truediv (settled_amount r) (Finite (fl (of_int term_months)))
              = Inr (monthly_no_interest r) \<and>
            float_truediv (total_with_interest r) (Finite (fl (of_int term_months)))
              = Inr (monthly_with_interest r)) \<and>
         (term_months = 0 \<longrightarrow>
            monthly_no_interest r = Finite 0 \<and> monthly_with_interest r = Finite 0))) \<and>
   (2 ^ 1024 - 2 ^ 970 \<le> \<bar>term_months\<bar> \<longrightarrow>
      calc_settlement principal_amt discount_pct interest_rate term_months
        = Inl OverflowError) \<and>
   calc_settlement (Finite 100000) (binary64 (35 / 100)) (binary64 (2 / 100)) 36 =
     Inr \<lparr>settled_amount = Finite 65000,
          monthly_no_interest = Finite (1985229327928889 / 2 ^ 40),
          total_with_interest = Finite 68900,
          monthly_with_interest = Finite (8417372350418489 / 2 ^ 42),
          savings_vs_full = Finite 35000,
          savings_pct = binary64 (35 / 100),
          savings_vs_litigation = Finite 71100\<rparr> \<and>
   \<bar>1985229327928889 / 2 ^ 40 - 180556 / 100\<bar> < (5 / 1000 :: rat) \<and>
   \<bar>8417372350418489 / 2 ^ 42 - 191389 / 100\<bar> < (5 / 1000 :: rat)"
proof (intro conjI impI)
  assume b: "\<bar>term_months\<bar> < 2 ^ 1024 - 2 ^ 970"
  define settled where "settled = float_mul principal_amt (float_sub (Finite 1) discount_pct)"
  define total_with_int where "total_with_int =
    float_mul settled (float_add (Finite 1)
      (float_mul interest_rate (Finite (fl (of_int term_months / 12)))))"
  note y = pyint_truediv_12_ok [OF b]
  show "\<exists>r. calc_settlement principal_amt discount_pct interest_rate term_months = Inr r \<and>
         settled_amount r = float_mul principal_amt (float_sub (Finite 1) discount_pct) \<and>
         pyint_truediv term_months 12 = Inr (Finite (fl (of_int term_months / 12))) \<and>
         total_with_interest r =
           float_mul (settled_amount r)
             (float_add (Finite 1)
                (float_mul interest_rate (Finite (fl (of_int term_months / 12))))) \<and>
         savings_vs_full r = float_sub principal_amt (settled_amount r) \<and>
         savings_pct r = discount_pct \<and>
         savings_vs_litigation r =
           float_sub (float_mul principal_amt (Finite (fl (140 / 100)))) (total_with_interest r) \<and>
         (term_months \<noteq> 0 \<longrightarrow>
            float_of_pyint term_months = Inr (Finite (fl (of_int term_months))) \<and>
            float_truediv (settled_amount r) (Finite (fl (of_int term_months)))
              = Inr (monthly_no_interest r) \<and>
            float_truediv (total_with_interest r) (Finite (fl (of_int term_months)))
              = Inr (monthly_with_interest r)) \<and>
         (term_months = 0 \<longrightarrow>
            monthly_no_interest r = Finite 0 \<and> monthly_with_interest r = Finite 0)"
  proof (cases "term_months = 0")
    case True
    then show ?thesis
      using y by (simp add: calc_settlement_def Let_def LITIGATION_FACTOR_def)
  next
    case False
    obtain m1 where m1: "float_div_int settled term_months = Inr m1"
        "float_truediv settled (Finite (float_of_int term_months)) = Inr m1"
      using float_div_int_ok [OF False b] by blast
    obtain m2 where m2: "float_div_int total_with_int term_months = Inr m2"
        "float_truediv total_with_int (Finite (float_of_int term_months)) = Inr m2"
      using float_div_int_ok [OF False b] by blast
    show ?thesis
      using False y m1 m2 float_of_pyint_ok [OF b]
      by (simp add: calc_settlement_def Let_def LITIGATION_FACTOR_def float_of_int_def
          settled_def [symmetric] total_with_int_def [symmetric])
  qed
next
  assume "2 ^ 1024 - 2 ^ 970 \<le> \<bar>term_months\<bar>"
  then show "calc_settlement principal_amt discount_pct interest_rate term_months = Inl OverflowError"
    by (rule calc_settlement_overflow)
qed (use settlement_example settlement_example_monthly in simp_all)

theorem calc_settlement_formulas_witness:
  "\<bar>36::int\<bar> < 2 ^ 1024 - 2 ^ 970 \<and> (36::int) \<noteq> 0 \<and>
   (\<exists>r. calc_settlement (Finite 100000) (binary64 (35 / 100)) (binary64 (2 / 100)) 36 = Inr r \<and>
        settled_amount r = float_mul (Finite 100000) (float_sub (Finite 1) (binary64 (35 / 100))) \<and>
        float_truediv (settled_amount r) (Finite (fl (of_int 36))) = Inr (monthly_no_interest r) \<and>
        float_truediv (total_with_interest r) (Finite (fl (of_int 36)))
          = Inr (monthly_with_interest r)) \<and>
   \<bar>0::int\<bar> < 2 ^ 1024 - 2 ^ 970 \<and>
   (\<exists>r. calc_settlement (Finite 100000) (binary64 (35 / 100)) (binary64 (2 / 100)) 0 = Inr r \<and>
        monthly_no_interest r = Finite 0 \<and> monthly_with_interest r = Finite 0) \<and>
   2 ^ 1024 - 2 ^ 970 \<le> \<bar>2 ^ 1024 :: int\<bar> \<and>
   calc_settlement (Finite 100000) (binary64 (35 / 100)) (binary64 (2 / 100)) (2 ^ 1024)
     = Inl OverflowError"
  using calc_settlement_formulas [of 36 "Finite 100000" "binary64 (35 / 100)" "binary64 (2 / 100)"]
        calc_settlement_formulas [of 0 "Finite 100000" "binary64 (35 / 100)" "binary64 (2 / 100)"]
        calc_settlement_formulas [of "2 ^ 1024" "Finite 100000" "binary64 (35 / 100)"
          "binary64 (2 / 100)"]
  by auto

lemma float_div_int_not_zerodiv: "float_div_int a i = Inl ZeroDivisionError \<Longrightarrow> i = 0"
  using float_div_int_cases [of i a] by auto

text \<open>
  C8. With \<^verbatim>\<open>term_months = 0\<close>, \<^verbatim>\<open>calc_settlement\<close> returns a record whose two monthly
  figures are 0, for every principal, discount and interest rate; and for no term does it
  raise \<^verbatim>\<open>ZeroDivisionError\<close>: both divisions by \<^verbatim>\<open>term_months\<close> sit behind the test
  \<^verbatim>\<open>if term_months\<close>, and the third division is by the literal 12.
\<close>

theorem calc_settlement_zero_term:
  "(\<exists>r. calc_settlement principal_amt discount_pct interest_rate 0 = Inr r \<and>
        monthly_no_interest r = Finite 0 \<and> monthly_with_interest r = Finite 0) \<and>
   (\<forall>term_months.
      calc_settlement principal_amt discount_pct interest_rate term_months
        \<noteq> Inl ZeroDivisionError)"
proof (intro conjI allI)
  have "pyint_truediv 0 12 = Inr (Finite 0)" by (simp add: pyint_truediv_def binary64_def)
  then show "\<exists>r. calc_settlement principal_amt discount_pct interest_rate 0 = Inr r \<and>
        monthly_no_interest r = Finite 0 \<and> monthly_with_interest r = Finite 0"
    by (simp add: calc_settlement_def Let_def)
next
  fix term_months
  show "calc_settlement principal_amt discount_pct interest_rate term_months
        \<noteq> Inl ZeroDivisionError"
  proof
    assume z: "calc_settlement principal_amt discount_pct interest_rate term_months
        = Inl ZeroDivisionError"
    have p: "pyint_truediv term_months 12 \<noteq> Inl ZeroDivisionError"
      using pyint_truediv_12_cases [of term_months] by auto
    have d: "float_div_int a term_months \<noteq> Inl ZeroDivisionError" if "term_months \<noteq> 0" for a
      using float_div_int_not_zerodiv that by blast
    from z p d show False
      by (auto simp: calc_settlement_def Let_def split: sum.splits if_splits)
  qed
qed

subsection \<open>Linearity of proration\<close>

text \<open>
  C7, as stated, at the area 10: the two weekly charges add up, in floats, to
  \<open>9000 - 2\<^sup>-\<^sup>3\<^sup>9\<close>, which is not the weekly charge 9000 of the whole campus.
\<close>

theorem linearity_counterexample:
  "0 \<le> (10::int) \<and> 10 \<le> TOTAL_CAMPUS_SQFT \<and>
   calc_current_weekly 10 = 4820135230076729 / 2 ^ 55 \<and>
   calc_current_weekly (TOTAL_CAMPUS_SQFT - 10) = 4947728775565271 / 2 ^ 39 \<and>
   fadd (calc_current_weekly 10) (calc_current_weekly (TOTAL_CAMPUS_SQFT - 10))
     = 9000 - 1 / 2 ^ 39 \<and>
   calc_current_weekly TOTAL_CAMPUS_SQFT = 9000 \<and>
   fadd (calc_current_weekly 10) (calc_current_weekly (TOTAL_CAMPUS_SQFT - 10))
     \<noteq> calc_current_weekly TOTAL_CAMPUS_SQFT"
  by code_simp

lemma calc_current_weekly_error:
  assumes "0 \<le> b"
  shows "\<bar>calc_current_weekly b - 9000 * (of_int b / 672718)\<bar>
           \<le> 9000 * (of_int b / 672718) * (2 / 2 ^ 53 + 1 / 2 ^ 106)"
proof -
  define u :: rat where "u = 1 / 2 ^ 53"
  define p :: rat where "p = of_int b / 672718"
  define p' where "p' = fl p"
  define w where "w = fl (9000 * p')"
  have u: "0 \<le> u" by (simp add: u_def)
  have p: "0 \<le> p" using assms by (simp add: p_def)
  have w: "calc_current_weekly b = w"
    by (simp add: calc_current_weekly_def calc_pct_def fmul_def CURRENT_WEEKLY_RATE_value
        TOTAL_CAMPUS_SQFT_def w_def p'_def p_def)
  have 1: "\<bar>p' - p\<bar> \<le> p * u" using fl_error [of p] p by (simp add: p'_def u_def)
  then have 2: "\<bar>p'\<bar> \<le> p + p * u" using p by linarith
  have "\<bar>w - 9000 * p'\<bar> \<le> \<bar>9000 * p'\<bar> * u"
    using fl_error [of "9000 * p'"] by (simp add: w_def u_def)
  also have "\<bar>9000 * p'\<bar> = 9000 * \<bar>p'\<bar>" by (simp add: abs_mult)
  also have "9000 * \<bar>p'\<bar> * u \<le> 9000 * (p + p * u) * u"
    using 2 u by (intro mult_right_mono) simp_all
  finally have 3: "\<bar>w - 9000 * p'\<bar> \<le> 9000 * (p + p * u) * u" .
  define B where "B = 9000 * (p + p * u) * u"
  define pu where "pu = p * u"
  have h1: "\<bar>p' - p\<bar> \<le> pu" using 1 by (simp add: pu_def)
  have h3: "\<bar>w - 9000 * p'\<bar> \<le> B" using 3 by (simp add: B_def)
  have "\<bar>w - 9000 * p\<bar> \<le> B + 9000 * pu" using h1 h3 by linarith
  then have "\<bar>w - 9000 * p\<bar> \<le> 9000 * (p + p * u) * u + 9000 * (p * u)"
    by (simp add: B_def pu_def)
  also have "\<dots> = 9000 * p * (2 / 2 ^ 53 + 1 / 2 ^ 106)"
    by (simp add: u_def algebra_simps)
  finally show ?thesis unfolding w p_def .
qed


text \<open>
  C7, amended. For all areas \<open>a\<close> with \<open>0 \<le> a \<le> TOTAL_CAMPUS_SQFT\<close>,
  \<^verbatim>\<open>calc_current_weekly(a) + calc_current_weekly(TOTAL_CAMPUS_SQFT - a)\<close> and
  \<^verbatim>\<open>calc_current_weekly(TOTAL_CAMPUS_SQFT)\<close> agree up to rounding: they differ by at most
  \<open>3 \<cdot> 10\<^sup>-\<^sup>1\<^sup>2\<close>.
\<close>

theorem current_weekly_linearity_bound:
  assumes "0 \<le> a" and "a \<le> TOTAL_CAMPUS_SQFT"
  shows "\<bar>fadd (calc_current_weekly a) (calc_current_weekly (TOTAL_CAMPUS_SQFT - a))
           - calc_current_weekly TOTAL_CAMPUS_SQFT\<bar> \<le> 3 / 10 ^ 12"
proof -
  define u :: rat where "u = 1 / 2 ^ 53"
  define d :: rat where "d = 2 / 2 ^ 53 + 1 / 2 ^ 106"
  define p :: rat where "p = of_int a / 672718"
  define q :: rat where "q = of_int (672718 - a) / 672718"
  define s where "s = calc_current_weekly a + calc_current_weekly (672718 - a)"
  have u: "0 \<le> u" by (simp add: u_def)
  have a: "a \<le> 672718" using assms(2) by (simp add: TOTAL_CAMPUS_SQFT_def)
  have pq: "p + q = 1" by (simp add: p_def q_def field_simps)
  have 1: "\<bar>calc_current_weekly a - 9000 * p\<bar> \<le> 9000 * p * d"
    unfolding p_def d_def using assms(1) by (rule calc_current_weekly_error)
  have 2: "\<bar>calc_current_weekly (672718 - a) - 9000 * q\<bar> \<le> 9000 * q * d"
    unfolding q_def d_def using a by (intro calc_current_weekly_error) simp
  have "9000 * p * d + 9000 * q * d = 9000 * (p + q) * d" by (simp add: algebra_simps)
  then have pqd: "9000 * p * d + 9000 * q * d = 9000 * d" using pq by simp
  have "s - 9000 = (calc_current_weekly a - 9000 * p)
                     + (calc_current_weekly (672718 - a) - 9000 * q)"
    using pq by (simp add: s_def algebra_simps)
  then have "\<bar>s - 9000\<bar> \<le> 9000 * p * d + 9000 * q * d"
    using 1 2 by linarith
  then have 3: "\<bar>s - 9000\<bar> \<le> 9000 * d" using pqd by simp
  then have 4: "\<bar>s\<bar> \<le> 9000 + 9000 * d" by linarith
  have "\<bar>fl s - s\<bar> \<le> \<bar>s\<bar> * u" using fl_error [of s] by (simp add: u_def)
  also have "\<dots> \<le> (9000 + 9000 * d) * u" using 4 u by (rule mult_right_mono)
  finally have 5: "\<bar>fl s - s\<bar> \<le> (9000 + 9000 * d) * u" .
  have "\<bar>fl s - 9000\<bar> \<le> \<bar>fl s - s\<bar> + \<bar>s - 9000\<bar>" by linarith
  also have "\<dots> \<le> (9000 + 9000 * d) * u + 9000 * d"
    using 3 5 by linarith
  also have "\<dots> \<le> 3 / 10 ^ 12" by (simp add: u_def d_def)
  finally show ?thesis
    by (simp add: fadd_def s_def calc_current_weekly_total [unfolded TOTAL_CAMPUS_SQFT_def]
        TOTAL_CAMPUS_SQFT_def)
qed

theorem current_weekly_linearity_bound_witness:
  "0 \<le> (10::int) \<and> 10 \<le> TOTAL_CAMPUS_SQFT \<and>
   \<bar>fadd (calc_current_weekly 10) (calc_current_weekly (TOTAL_CAMPUS_SQFT - 10))
      - calc_current_weekly TOTAL_CAMPUS_SQFT\<bar> \<le> 3 / 10 ^ 12"
  using current_weekly_linearity_bound [of 10] by (simp add: TOTAL_CAMPUS_SQFT_def)

subsection \<open>The calendar\<close>
























subsection \<open>Urgency of deadlines\<close>

lemma strptime_example: "strptime_ymd ''2026-03-01'' = Inr \<lparr>year = 2026, month = 3, day = 1\<rparr>"
  by code_simp

text \<open>
  C9. \<^verbatim>\<open>view_deadlines\<close> classifies \<^verbatim>\<open>days_left\<close> as overdue below 0, urgent from 0 to 7,
  soon from 8 to 14 and normal above 14; a deadline that is today has \<^verbatim>\<open>days_left = 0\<close> and
  is urgent.
\<close>

theorem urgency_classification:
  "(days < 0 \<longrightarrow> urgency_of days = Overdue) \<and>
   (0 \<le> days \<and> days \<le> 7 \<longrightarrow> urgency_of days = Urgent) \<and>
   (8 \<le> days \<and> days \<le> 14 \<longrightarrow> urgency_of days = Soon) \<and>
   (14 < days \<longrightarrow> urgency_of days = Normal) \<and>
   days_between today today = 0 \<and>
   urgency_of (days_between today today) = Urgent \<and>
   (strptime_ymd deadline_str = Inr today \<longrightarrow>
      days_left deadline_str today = Inr 0 \<and>
      map_sum id urgency_of (days_left deadline_str today) = Inr Urgent)"
  by (simp add: urgency_of_def days_between_def days_left_def)

theorem urgency_classification_witness:
  "urgency_of (- 1) = Overdue \<and> urgency_of 0 = Urgent \<and> urgency_of 7 = Urgent \<and>
   urgency_of 8 = Soon \<and> urgency_of 14 = Soon \<and> urgency_of 15 = Normal \<and>
   strptime_ymd ''2026-03-01'' = Inr \<lparr>year = 2026, month = 3, day = 1\<rparr> \<and>
   days_left ''2026-03-01'' \<lparr>year = 2026, month = 3, day = 1\<rparr> = Inr 0"
  using urgency_classification [of "- 1"] urgency_classification [of 0]
    urgency_classification [of 7] urgency_classification [of 8]
    urgency_classification [of 14] urgency_classification [of 15]
    urgency_classification [of 0 "\<lparr>year = 2026, month = 3, day = 1\<rparr>" "''2026-03-01''"]
    strptime_example
  by simp

subsection \<open>Marking a packet as sent\<close>

lemma write_and_log_ok:
  assumes "select_parcel conn pid = Inr (Some row)" and "parcel_id entry = Some pid"
  shows "write_and_log conn pid f entry =
           (\<lparr>working = \<lparr>parcels = (parcels (working conn))(pid \<mapsto> f row),
                          enforcement_log = enforcement_log (working conn) @ [entry]\<rparr>,
             committed = \<lparr>parcels = (parcels (working conn))(pid \<mapsto> f row),
                            enforcement_log = enforcement_log (working conn) @ [entry]\<rparr>\<rparr>,
            Inr Updated)"
  using assms
  by (auto simp: write_and_log_def select_parcel_def update_parcel_row_def insert_log_def
      commit_def split: if_splits)




lemma select_seed: "select_parcel seed_conn 10 = Inr (Some seed_row)"
  by (simp add: select_parcel_def seed_conn_def seed_db_def sqlite_int_def)












subsection \<open>Editing a numeric field\<close>

lemma plain_int_10: "int_of_str plain_builtins ''10'' = Some 10"
  by code_simp

lemma plain_int_big:
  "int_of_str plain_builtins (remove_char CHR '','' ''9223372036854775808'')
     = Some 9223372036854775808"
  by code_simp

lemma plain_int_31500:
  "int_of_str plain_builtins (remove_char CHR '','' ''31,500'') = Some 31500"
  by code_simp

lemma plain_int_abc: "int_of_str plain_builtins (remove_char CHR '','' ''31k'') = None"
  by code_simp

lemma plain_float_1200:
  "float_of_str plain_builtins (remove_char CHR '','' (remove_char CHR ''$'' ''$1,200''))
     = Some (Finite 1200)"
  by code_simp

lemma plain_float_nan:
  "float_of_str plain_builtins (remove_char CHR '','' (remove_char CHR ''$'' ''nan'')) = Some NaN"
  by code_simp

lemma plain_float_inf:
  "float_of_str plain_builtins (remove_char CHR '','' (remove_char CHR ''$'' ''inf''))
     = Some PosInf"
  by code_simp

lemma plain_float_bad:
  "float_of_str plain_builtins (remove_char CHR '','' (remove_char CHR ''$'' ''n/a'')) = None"
  by code_simp

text \<open>
  C3, as stated, at the area \<^verbatim>\<open>9223372036854775808\<close> for the seeded parcel 10: the text
  parses as an \<^verbatim>\<open>int\<close>, but the value does not fit an SQLite INTEGER, the \<^verbatim>\<open>UPDATE\<close> raises
  \<^verbatim>\<open>OverflowError\<close>, and the field is not changed and nothing is logged.
\<close>

theorem update_parcel_overflow_counterexample:
  "int_of_str plain_builtins ''10'' = Some 10 \<and>
   select_parcel seed_conn 10 = Inr (Some seed_row) \<and>
   int_of_str plain_builtins (remove_char CHR '','' ''9223372036854775808'')
     = Some 9223372036854775808 \<and>
   update_parcel plain_builtins seed_conn ''10'' F_sqft ''9223372036854775808''
       ''2026-01-02 10:00:00''
     = (seed_conn, Inl OverflowError)"
  using plain_int_10 select_seed plain_int_big
  by (simp add: update_parcel_def sqlite_int_def)

text \<open>
  C3, amended. For every parcel in the table and each of the numeric fields area, past-due
  balance and weekly rate: if the value does not parse, \<^verbatim>\<open>update_parcel\<close> returns with the
  connection as it was (no row changed, no log entry); if it parses (for the area: to a value
  that fits an SQLite INTEGER), the field is set, exactly one log entry referencing the parcel
  is appended, and both are committed together; an area that parses to a value outside the
  64-bit range raises \<^verbatim>\<open>OverflowError\<close> with the connection as it was. The area is set
  together with the campus share. A balance or rate is set to the float parsed, be it finite
  or infinite, and to NULL when the float is a NaN, which \<^verbatim>\<open>float\<close> reads from \<^verbatim>\<open>nan\<close>.
\<close>

theorem update_parcel_numeric_atomic:
  assumes "int_of_str py pid_in = Some pid" and "select_parcel conn pid = Inr (Some row)"
  shows
    "(int_of_str py (remove_char CHR '','' val) = None \<longrightarrow>
        update_parcel py conn pid_in F_sqft val now = (conn, Inr Invalid_number)) \<and>
     (\<forall>v. int_of_str py (remove_char CHR '','' val) = Some v \<and> \<not> sqlite_int v \<longrightarrow>
        update_parcel py conn pid_in F_sqft val now = (conn, Inl OverflowError)) \<and>
     (\<forall>v. int_of_str py (remove_char CHR '','' val) = Some v \<and> sqlite_int v \<longrightarrow>
        (\<exists>entry. parcel_id entry = Some pid \<and>
           update_parcel py conn pid_in F_sqft val now =
             (\<lparr>working =
                 \<lparr>parcels = (parcels (working conn))
                    (pid \<mapsto> row\<lparr>sqft := Some v, pct_campus := Some (calc_pct v)\<rparr>),
                  enforcement_log = enforcement_log (working conn) @ [entry]\<rparr>,
               committed =
                 \<lparr>parcels = (parcels (working conn))
                    (pid \<mapsto> row\<lparr>sqft := Some v, pct_campus := Some (calc_pct v)\<rparr>),
                  enforcement_log = enforcement_log (working conn) @ [entry]\<rparr>\<rparr>,
              Inr Updated))) \<and>
     (float_of_str py (remove_char CHR '','' (remove_char CHR ''$'' val)) = None \<longrightarrow>
        update_parcel py conn pid_in F_past_due_balance val now = (conn, Inr Invalid_number) \<and>
        update_parcel py conn pid_in F_weekly_rate val now = (conn, Inr Invalid_number)) \<and>
     (\<forall>v. float_of_str py (remove_char CHR '','' (remove_char CHR ''$'' val)) = Some v \<longrightarrow>
        (\<exists>entry. parcel_id entry = Some pid \<and>
           update_parcel py conn pid_in F_past_due_balance val now =
             (\<lparr>working =
                 \<lparr>parcels = (parcels (working conn))(pid \<mapsto> row\<lparr>past_due_balance := sqlite_real v\<rparr>),
                  enforcement_log = enforcement_log (working conn) @ [entry]\<rparr>,
               committed =
                 \<lparr>parcels = (parcels (working conn))(pid \<mapsto> row\<lparr>past_due_balance := sqlite_real v\<rparr>),
                  enforcement_log = enforcement_log (working conn) @ [entry]\<rparr>\<rparr>,
              Inr Updated)) \<and>
        (\<exists>entry. parcel_id entry = Some pid \<and>
           update_parcel py conn pid_in F_weekly_rate val now =
             (\<lparr>working =
                 \<lparr>parcels = (parcels (working conn))(pid \<mapsto> row\<lparr>weekly_rate := sqlite_real v\<rparr>),
                  enforcement_log = enforcement_log (working conn) @ [entry]\<rparr>,
               committed =
                 \<lparr>parcels = (parcels (working conn))(pid \<mapsto> row\<lparr>weekly_rate := sqlite_real v\<rparr>),
                  enforcement_log = enforcement_log (working conn) @ [entry]\<rparr>\<rparr>,
              Inr Updated)))"
proof -
  have e: "parcel_id (change_entry pid now a n) = Some pid" for a n
    by (simp add: change_entry_def)
  note wl = write_and_log_ok [OF assms(2) e]
  show ?thesis
    using assms by (auto simp: update_parcel_def wl e)
qed

theorem update_parcel_numeric_atomic_witness:
  "int_of_str plain_builtins ''10'' = Some 10 \<and>
   select_parcel seed_conn 10 = Inr (Some seed_row) \<and>
   int_of_str plain_builtins (remove_char CHR '','' ''31k'') = None \<and>
   update_parcel plain_builtins seed_conn ''10'' F_sqft ''31k'' ''2026-01-02 10:00:00''
     = (seed_conn, Inr Invalid_number) \<and>
   int_of_str plain_builtins (remove_char CHR '','' ''9223372036854775808'')
     = Some 9223372036854775808 \<and>
   \<not> sqlite_int 9223372036854775808 \<and>
   update_parcel plain_builtins seed_conn ''10'' F_sqft ''9223372036854775808''
       ''2026-01-02 10:00:00''
     = (seed_conn, Inl OverflowError) \<and>
   int_of_str plain_builtins (remove_char CHR '','' ''31,500'') = Some 31500 \<and>
   sqlite_int 31500 \<and>
   (\<exists>entry. parcel_id entry = Some 10 \<and>
      update_parcel plain_builtins seed_conn ''10'' F_sqft ''31,500'' ''2026-01-02 10:00:00'' =
        (\<lparr>working =
            \<lparr>parcels = (parcels (working seed_conn))
               (10 \<mapsto> seed_row\<lparr>sqft := Some 31500, pct_campus := Some (calc_pct 31500)\<rparr>),
             enforcement_log = enforcement_log (working seed_conn) @ [entry]\<rparr>,
          committed =
            \<lparr>parcels = (parcels (working seed_conn))
               (10 \<mapsto> seed_row\<lparr>sqft := Some 31500, pct_campus := Some (calc_pct 31500)\<rparr>),
             enforcement_log = enforcement_log (working seed_conn) @ [entry]\<rparr>\<rparr>,
         Inr Updated)) \<and>
   float_of_str plain_builtins (remove_char CHR '','' (remove_char CHR ''$'' ''n/a'')) = None \<and>
   update_parcel plain_builtins seed_conn ''10'' F_past_due_balance ''n/a''
       ''2026-01-02 10:00:00''
     = (seed_conn, Inr Invalid_number) \<and>
   float_of_str plain_builtins (remove_char CHR '','' (remove_char CHR ''$'' ''$1,200''))
     = Some (Finite 1200) \<and>
   (\<exists>entry. parcel_id entry = Some 10 \<and>
      update_parcel plain_builtins seed_conn ''10'' F_past_due_balance ''$1,200''
          ''2026-01-02 10:00:00'' =
        (\<lparr>working =
            \<lparr>parcels = (parcels (working seed_conn))
               (10 \<mapsto> seed_row\<lparr>past_due_balance := Some (Finite 1200)\<rparr>),
             enforcement_log = enforcement_log (working seed_conn) @ [entry]\<rparr>,
          committed =
            \<lparr>parcels = (parcels (working seed_conn))
               (10 \<mapsto> seed_row\<lparr>past_due_balance := Some (Finite 1200)\<rparr>),
             enforcement_log = enforcement_log (working seed_conn) @ [entry]\<rparr>\<rparr>,
         Inr Updated)) \<and>
   float_of_str plain_builtins (remove_char CHR '','' (remove_char CHR ''$'' ''nan'')) = Some NaN \<and>
   (\<exists>entry. parcel_id entry = Some 10 \<and>
      update_parcel plain_builtins seed_conn ''10'' F_past_due_balance ''nan''
          ''2026-01-02 10:00:00'' =
        (\<lparr>working =
            \<lparr>parcels = (parcels (working seed_conn))
               (10 \<mapsto> seed_row\<lparr>past_due_balance := None\<rparr>),
             enforcement_log = enforcement_log (working seed_conn) @ [entry]\<rparr>,
          committed =
            \<lparr>parcels = (parcels (working seed_conn))
               (10 \<mapsto> seed_row\<lparr>past_due_balance := None\<rparr>),
             enforcement_log = enforcement_log (working seed_conn) @ [entry]\<rparr>\<rparr>,
         Inr Updated)) \<and>
   float_of_str plain_builtins (remove_char CHR '','' (remove_char CHR ''$'' ''inf''))
     = Some PosInf \<and>
   (\<exists>entry. parcel_id entry = Some 10 \<and>
      update_parcel plain_builtins seed_conn ''10'' F_weekly_rate ''inf''
          ''2026-01-02 10:00:00'' =
        (\<lparr>working =
            \<lparr>parcels = (parcels (working seed_conn))
               (10 \<mapsto> seed_row\<lparr>weekly_rate := Some PosInf\<rparr>),
             enforcement_log = enforcement_log (working seed_conn) @ [entry]\<rparr>,
          committed =
            \<lparr>parcels = (parcels (working seed_conn))
               (10 \<mapsto> seed_row\<lparr>weekly_rate := Some PosInf\<rparr>),
             enforcement_log = enforcement_log (working seed_conn) @ [entry]\<rparr>\<rparr>,
         Inr Updated))"
proof -
  have s: "sqlite_int 31500" "\<not> sqlite_int 9223372036854775808"
    by (simp_all add: sqlite_int_def)
  note t = update_parcel_numeric_atomic [OF plain_int_10 select_seed]
  show ?thesis
    using t [of "''31k''" "''2026-01-02 10:00:00''"]
      t [of "''9223372036854775808''" "''2026-01-02 10:00:00''"]
      t [of "''31,500''" "''2026-01-02 10:00:00''"]
      t [of "''n/a''" "''2026-01-02 10:00:00''"]
      t [of "''$1,200''" "''2026-01-02 10:00:00''"]
      t [of "''nan''" "''2026-01-02 10:00:00''"]
      t [of "''inf''" "''2026-01-02 10:00:00''"]
      s plain_int_10 select_seed plain_int_abc plain_int_big plain_int_31500
      plain_float_bad plain_float_1200 plain_float_nan plain_float_inf
    by (simp add: sqlite_real_def)
qed

subsection \<open>The campus share follows the area\<close>

lemma write_and_log_Updated:
  assumes "select_parcel conn pid = Inr (Some row)" and "parcel_id entry = Some pid"
    and "write_and_log conn pid f entry = (conn', r)"
  shows "r = Inr Updated \<and> working conn' = committed conn' \<and>
         parcels (committed conn') pid = Some (f row)"
  using assms(3) unfolding write_and_log_ok [OF assms(1,2)] by auto

text \<open>
  C6. Whenever the area branch of \<^verbatim>\<open>update_parcel\<close> or the square-footage adjustment of
  \<^verbatim>\<open>prorata_calculator\<close> completes its write, the row holds the new area and, written by
  the same \<^verbatim>\<open>UPDATE\<close> and committed with it, the campus share
  \<^verbatim>\<open>new area / TOTAL_CAMPUS_SQFT\<close>.
\<close>

theorem area_change_recomputes_share:
  "(update_parcel py conn pid_in F_sqft val now = (conn', Inr Updated) \<longrightarrow>
      (\<exists>pid v row'.
         int_of_str py pid_in = Some pid \<and>
         int_of_str py (remove_char CHR '','' val) = Some v \<and>
         working conn' = committed conn' \<and>
         parcels (committed conn') pid = Some row' \<and>
         sqft row' = Some v \<and>
         pct_campus row' = Some (fl (of_int v / of_int TOTAL_CAMPUS_SQFT)) \<and>
         Inr (fl (of_int v / of_int TOTAL_CAMPUS_SQFT)) = int_truediv v TOTAL_CAMPUS_SQFT)) \<and>
   (prorata_adjust py conn adjust new_sf_in now = (conn', Inr Updated) \<longrightarrow>
      (\<exists>pid v row'.
         int_of_str py adjust = Some pid \<and>
         int_of_str py (remove_char CHR '','' new_sf_in) = Some v \<and>
         working conn' = committed conn' \<and>
         parcels (committed conn') pid = Some row' \<and>
         sqft row' = Some v \<and>
         pct_campus row' = Some (fl (of_int v / of_int TOTAL_CAMPUS_SQFT)) \<and>
         Inr (fl (of_int v / of_int TOTAL_CAMPUS_SQFT)) = int_truediv v TOTAL_CAMPUS_SQFT))"
proof (intro conjI impI)
  have e: "parcel_id (change_entry pid now a n) = Some pid" for pid a n
    by (simp add: change_entry_def)
  have t: "int_truediv v TOTAL_CAMPUS_SQFT = Inr (fl (of_int v / of_int TOTAL_CAMPUS_SQFT))" for v
    by (simp add: int_truediv_def TOTAL_CAMPUS_SQFT_def)
  {
    assume u: "update_parcel py conn pid_in F_sqft val now = (conn', Inr Updated)"
    then obtain pid where pid: "int_of_str py pid_in = Some pid"
      by (cases "int_of_str py pid_in") (auto simp: update_parcel_def)
    from u pid obtain row where row: "select_parcel conn pid = Inr (Some row)"
      by (cases "select_parcel conn pid") (auto simp: update_parcel_def split: option.splits)
    from u pid row obtain v where v: "int_of_str py (remove_char CHR '','' val) = Some v"
      and w: "write_and_log conn pid
                (\<lambda>r. r\<lparr>sqft := Some v, pct_campus := Some (calc_pct v)\<rparr>)
                (change_entry pid now
                   (''Updated '' @ field_label F_sqft @ '' to: '' @ str_of_int v)
                   ''Changed by user'') = (conn', Inr Updated)"
      by (cases "int_of_str py (remove_char CHR '','' val)")
        (auto simp: update_parcel_def split: if_splits)
    from w have "working conn' = committed conn' \<and>
        parcels (committed conn') pid
          = Some (row\<lparr>sqft := Some v, pct_campus := Some (calc_pct v)\<rparr>)"
      using write_and_log_Updated [OF row e w] by simp
    then show "\<exists>pid v row'.
         int_of_str py pid_in = Some pid \<and>
         int_of_str py (remove_char CHR '','' val) = Some v \<and>
         working conn' = committed conn' \<and>
         parcels (committed conn') pid = Some row' \<and>
         sqft row' = Some v \<and>
         pct_campus row' = Some (fl (of_int v / of_int TOTAL_CAMPUS_SQFT)) \<and>
         Inr (fl (of_int v / of_int TOTAL_CAMPUS_SQFT)) = int_truediv v TOTAL_CAMPUS_SQFT"
      using pid v t [of v] by (simp add: calc_pct_def)
  }
  {
    assume u: "prorata_adjust py conn adjust new_sf_in now = (conn', Inr Updated)"
    then have ne: "adjust \<noteq> []" by (auto simp: prorata_adjust_def)
    from u ne obtain pid where pid: "int_of_str py adjust = Some pid"
      by (cases "int_of_str py adjust") (auto simp: prorata_adjust_def)
    from u ne pid obtain row where row: "select_parcel conn pid = Inr (Some row)"
      by (cases "select_parcel conn pid") (auto simp: prorata_adjust_def split: option.splits)
    from u ne pid row obtain v where v: "int_of_str py (remove_char CHR '','' new_sf_in) = Some v"
      and w: "write_and_log conn pid
                (\<lambda>r. r\<lparr>sqft := Some v, pct_campus := Some (calc_pct v)\<rparr>)
                (change_entry pid now
                   (''SF updated to '' @ str_of_int_commas v @ '' (was ''
                    @ str_of_int_commas (sqft_or_0 row) @ '')'')
                   ''Pro-rata calculator adjustment'') = (conn', Inr Updated)"
      by (cases "int_of_str py (remove_char CHR '','' new_sf_in)")
        (auto simp: prorata_adjust_def split: if_splits)
    from w have "working conn' = committed conn' \<and>
        parcels (committed conn') pid
          = Some (row\<lparr>sqft := Some v, pct_campus := Some (calc_pct v)\<rparr>)"
      using write_and_log_Updated [OF row e w] by simp
    then show "\<exists>pid v row'.
         int_of_str py adjust = Some pid \<and>
         int_of_str py (remove_char CHR '','' new_sf_in) = Some v \<and>
         working conn' = committed conn' \<and>
         parcels (committed conn') pid = Some row' \<and>
         sqft row' = Some v \<and>
         pct_campus row' = Some (fl (of_int v / of_int TOTAL_CAMPUS_SQFT)) \<and>
         Inr (fl (of_int v / of_int TOTAL_CAMPUS_SQFT)) = int_truediv v TOTAL_CAMPUS_SQFT"
      using pid v t [of v] by (simp add: calc_pct_def)
  }
qed

theorem area_change_recomputes_share_witness:
  "snd (update_parcel plain_builtins seed_conn ''10'' F_sqft ''31,500'' ''2026-01-02 10:00:00'')
     = Inr Updated \<and>
   (\<exists>row'. parcels (committed (fst (update_parcel plain_builtins seed_conn ''10'' F_sqft
                ''31,500'' ''2026-01-02 10:00:00''))) 10 = Some row' \<and>
      sqft row' = Some 31500 \<and>
      pct_campus row' = Some (fl (of_int 31500 / of_int TOTAL_CAMPUS_SQFT))) \<and>
   snd (prorata_adjust plain_builtins seed_conn ''10'' ''31,500'' ''2026-01-02 10:00:00'')
     = Inr Updated \<and>
   (\<exists>row'. parcels (committed (fst (prorata_adjust plain_builtins seed_conn ''10''
                ''31,500'' ''2026-01-02 10:00:00''))) 10 = Some row' \<and>
      sqft row' = Some 31500 \<and>
      pct_campus row' = Some (fl (of_int 31500 / of_int TOTAL_CAMPUS_SQFT)))"
proof -
  have s: "sqlite_int 31500" by (simp add: sqlite_int_def)
  have e: "parcel_id (change_entry pid now a n) = Some pid" for pid now a n
    by (simp add: change_entry_def)
  have u: "snd (update_parcel plain_builtins seed_conn ''10'' F_sqft ''31,500''
              ''2026-01-02 10:00:00'') = Inr Updated"
    using plain_int_10 plain_int_31500 select_seed s
    by (simp add: update_parcel_def write_and_log_ok [OF select_seed e])
  have p: "snd (prorata_adjust plain_builtins seed_conn ''10'' ''31,500''
              ''2026-01-02 10:00:00'') = Inr Updated"
    using plain_int_10 plain_int_31500 select_seed s
    by (simp add: prorata_adjust_def write_and_log_ok [OF select_seed e])
  have u': "update_parcel plain_builtins seed_conn ''10'' F_sqft ''31,500''
              ''2026-01-02 10:00:00''
            = (fst (update_parcel plain_builtins seed_conn ''10'' F_sqft ''31,500''
              ''2026-01-02 10:00:00''), Inr Updated)"
    using u by (simp add: prod_eq_iff)
  have p': "prorata_adjust plain_builtins seed_conn ''10'' ''31,500'' ''2026-01-02 10:00:00''
            = (fst (prorata_adjust plain_builtins seed_conn ''10'' ''31,500''
              ''2026-01-02 10:00:00''), Inr Updated)"
    using p by (simp add: prod_eq_iff)
  note a = area_change_recomputes_share [of plain_builtins seed_conn "''10''" "''31,500''"
        "''2026-01-02 10:00:00''"
        "fst (update_parcel plain_builtins seed_conn ''10'' F_sqft ''31,500''
              ''2026-01-02 10:00:00'')" "''10''" "''31,500''", THEN conjunct1, rule_format, OF u']
  note b = area_change_recomputes_share [of plain_builtins seed_conn "''10''" "''31,500''"
        "''2026-01-02 10:00:00''"
        "fst (prorata_adjust plain_builtins seed_conn ''10'' ''31,500''
              ''2026-01-02 10:00:00'')" "''10''" "''31,500''", THEN conjunct2, rule_format, OF p']
  show ?thesis
    using a b u p plain_int_10 plain_int_31500 by auto
qed


end
